theory Spec2Isabelle
  imports Main "HOL-Library.Monad_Syntax" "HOL-Library.Word"
begin

unbundle bit_operations_syntax

section \<open>JavaScript strings\<close>

text \<open>
  A JavaScript string is a sequence of 16-bit code units. \<open>J\<close> turns a literal of
  characters into the string of the same code units. The backslash cannot be written
  inside a literal; it is the code unit 0x5C.
\<close>

type_synonym code_unit = "16 word"

type_synonym jstring = "code_unit list"

definition J :: "string \<Rightarrow> jstring" where
  "J s = map (\<lambda>c. of_nat (of_char c)) s"

definition BSL :: jstring where
  "BSL = [0x5C]"

text \<open>The decimal digits of a whole number.\<close>

definition digit_char :: "nat \<Rightarrow> code_unit" where
  "digit_char n = J ''0123456789'' ! n"

function show_nat :: "nat \<Rightarrow> jstring" where
  "show_nat n = (if n < 10 then [digit_char n] else show_nat (n div 10) @ [digit_char (n mod 10)])"
  by pat_completeness auto
termination
  by (relation "measure id") auto

definition show_int :: "int \<Rightarrow> jstring" where
  "show_int i = (if i < 0 then J ''-'' @ show_nat (nat (- i)) else show_nat (nat i))"

definition startsWith :: "jstring \<Rightarrow> jstring \<Rightarrow> bool" where
  "startsWith s p = (take (length p) s = p)"

text \<open>\<^verbatim>\<open>s.replace(pat, rep)\<close> with a string pattern: the first occurrence is replaced.\<close>

fun replace_first :: "jstring \<Rightarrow> jstring \<Rightarrow> jstring \<Rightarrow> jstring" where
  "replace_first pat rep [] = (if pat = [] then rep else [])"
| "replace_first pat rep (c # cs) =
     (if startsWith (c # cs) pat then rep @ drop (length pat) (c # cs)
      else c # replace_first pat rep cs)"

text \<open>\<^verbatim>\<open>s.split("\n")[0]\<close>\<close>

definition first_line :: "jstring \<Rightarrow> jstring" where
  "first_line s = takeWhile (\<lambda>c. c \<noteq> 0x0A) s"

text \<open>\<^verbatim>\<open>s.trim()\<close> removes white space and line terminators at both ends.\<close>

definition is_space :: "code_unit \<Rightarrow> bool" where
  "is_space c =
     (c \<in> set [0x09, 0x0A, 0x0B, 0x0C, 0x0D, 0x20, 0xA0, 0x1680, 0x2000, 0x2001, 0x2002, 0x2003,
                0x2004, 0x2005, 0x2006, 0x2007, 0x2008, 0x2009, 0x200A, 0x2028, 0x2029, 0x202F,
                0x205F, 0x3000, 0xFEFF])"

definition trim :: "jstring \<Rightarrow> jstring" where
  "trim s = rev (dropWhile is_space (rev (dropWhile is_space s)))"

section \<open>JavaScript values\<close>

text \<open>
  The worker receives its payload from \<^verbatim>\<open>JSON.parse\<close>, so a payload is an arbitrary JSON
  value and every property read may yield \<^verbatim>\<open>undefined\<close>. An object is the association list
  of its own properties, one entry per key. A number is given by the three things the
  worker can observe of it: the text the language converts it to, whether it is zero,
  and whether it is above zero; so 1.5 is \<open>Num (J ''1.5'') False True\<close> and ten to the
  power 21 is \<open>Num (J ''1e+21'') False True\<close>. Parsed JSON holds no \<^verbatim>\<open>NaN\<close>, so a number is
  falsy exactly when it is zero. A thrown \<^verbatim>\<open>TypeError\<close> is the value \<open>None\<close> of an
  \<open>option\<close> result: no other exception can arise in the functions modelled here.
\<close>

datatype jsval =
    Undefined
  | Null
  | Bool bool
  | Num jstring bool bool
  | Str jstring
  | Arr "jsval list"
  | Obj "(jstring \<times> jsval) list"

text \<open>The length of a string or an array as a number: a whole number, printed in decimal.\<close>

definition length_num :: "nat \<Rightarrow> jsval" where
  "length_num n = Num (show_nat n) (n = 0) (0 < n)"

text \<open>\<^verbatim>\<open>!v\<close> is false exactly for the truthy values.\<close>

fun truthy :: "jsval \<Rightarrow> bool" where
  "truthy Undefined = False"
| "truthy Null = False"
| "truthy (Bool b) = b"
| "truthy (Num t z p) = (\<not> z)"
| "truthy (Str s) = (s \<noteq> [])"
| "truthy (Arr xs) = True"
| "truthy (Obj kvs) = True"

text \<open>\<^verbatim>\<open>a || b\<close>\<close>

definition or_else :: "jsval \<Rightarrow> jsval \<Rightarrow> jsval" where
  "or_else a b = (if truthy a then a else b)"

text \<open>\<^verbatim>\<open>v === 0\<close>\<close>

fun is_zero :: "jsval \<Rightarrow> bool" where
  "is_zero (Num t z p) = z"
| "is_zero _ = False"

text \<open>
  \<^verbatim>\<open>v.p\<close>: reading a property of \<^verbatim>\<open>undefined\<close> or \<^verbatim>\<open>null\<close> throws; an object yields its
  own property or \<^verbatim>\<open>undefined\<close>; strings and arrays have \<^verbatim>\<open>length\<close>. None of the property
  names the worker reads is inherited from a prototype, apart from \<^verbatim>\<open>length\<close>.
\<close>

fun get :: "jsval \<Rightarrow> jstring \<Rightarrow> jsval option" where
  "get Undefined p = None"
| "get Null p = None"
| "get (Bool b) p = Some Undefined"
| "get (Num t z q) p = Some Undefined"
| "get (Str s) p = Some (if p = J ''length'' then length_num (length s) else Undefined)"
| "get (Arr xs) p = Some (if p = J ''length'' then length_num (length xs) else Undefined)"
| "get (Obj kvs) p = Some (case map_of kvs p of None \<Rightarrow> Undefined | Some v \<Rightarrow> v)"

text \<open>\<^verbatim>\<open>v?.p\<close>\<close>

definition get_opt :: "jsval \<Rightarrow> jstring \<Rightarrow> jsval" where
  "get_opt v p = (case get v p of None \<Rightarrow> Undefined | Some x \<Rightarrow> x)"

text \<open>The receiver of a call to a method that only strings have.\<close>

fun the_str :: "jsval \<Rightarrow> jstring option" where
  "the_str (Str s) = Some s"
| "the_str _ = None"

fun join_comma :: "jstring list \<Rightarrow> jstring" where
  "join_comma [] = []"
| "join_comma [s] = s"
| "join_comma (s # t # ss) = s @ J '','' @ join_comma (t # ss)"

text \<open>
  The string a value turns into inside a template literal. An object that has an own
  property \<^verbatim>\<open>toString\<close> (never callable in parsed JSON) cannot be converted: that throws.
\<close>

fun to_string :: "jsval \<Rightarrow> jstring option" where
  "to_string Undefined = Some (J ''undefined'')"
| "to_string Null = Some (J ''null'')"
| "to_string (Bool b) = Some (if b then J ''true'' else J ''false'')"
| "to_string (Num t z p) = Some t"
| "to_string (Str s) = Some s"
| "to_string (Arr xs) =
     map_option join_comma
       (those (map (\<lambda>x. if x = Undefined \<or> x = Null then Some [] else to_string x) xs))"
| "to_string (Obj kvs) =
     (if J ''toString'' \<in> fst ` set kvs then None else Some (J ''[object Object]''))"

text \<open>\<^verbatim>\<open>v.toString()\<close>\<close>

definition call_toString :: "jsval \<Rightarrow> jstring option" where
  "call_toString v = (if v = Undefined \<or> v = Null then None else to_string v)"

text \<open>
  \<^verbatim>\<open>v > 0\<close>. The conversion of a string to a number belongs to the language; it enters
  as the parameter \<open>positive\<close>, which tells whether a string converts to a number above
  zero.
\<close>

fun gt_zero :: "(jstring \<Rightarrow> bool) \<Rightarrow> jsval \<Rightarrow> bool option" where
  "gt_zero positive Undefined = Some False"
| "gt_zero positive Null = Some False"
| "gt_zero positive (Bool b) = Some b"
| "gt_zero positive (Num t z p) = Some p"
| "gt_zero positive (Str s) = Some (positive s)"
| "gt_zero positive (Arr xs) = map_option positive (to_string (Arr xs))"
| "gt_zero positive (Obj kvs) = (if J ''toString'' \<in> fst ` set kvs then None else Some False)"

section \<open>Escaping for MarkdownV2\<close>

text \<open>The character class \<^verbatim>\<open>[_*\[\]()~`>#+\-=|{}.!]\<close> of the regular expression.\<close>

definition reserved :: "code_unit \<Rightarrow> bool" where
  "reserved c = (c \<in> set (J ''_*[]()~`>#+-=|{}.!''))"

text \<open>
  \<^verbatim>\<open>text.replace(/([_*\[\]()~`>#+\-=|{}.!])/g, "\\$1")\<close>: every match of the class is
  replaced by a backslash followed by the matched character.
\<close>

fun replace_reserved :: "jstring \<Rightarrow> jstring" where
  "replace_reserved [] = []"
| "replace_reserved (c # cs) =
     (if reserved c then 0x5C # c # replace_reserved cs else c # replace_reserved cs)"

text \<open>\<^verbatim>\<open>text.replace(/\\/g, "\\\\")\<close>: every backslash is replaced by two.\<close>

fun replace_backslash :: "jstring \<Rightarrow> jstring" where
  "replace_backslash [] = []"
| "replace_backslash (c # cs) =
     (if c = 0x5C then 0x5C # 0x5C # replace_backslash cs
      else c # replace_backslash cs)"

text \<open>
  \<^verbatim>\<open>escapeMarkdownV2\<close> of \<^verbatim>\<open>worker.js\<close>. A falsy argument gives the empty string. A truthy
  argument that is not a string has no callable \<^verbatim>\<open>replace\<close>, and the call throws.
\<close>

fun escapeMarkdownV2 :: "jsval \<Rightarrow> jstring option" where
  "escapeMarkdownV2 text =
     (if \<not> truthy text then Some []
      else case text of
        Str s \<Rightarrow> Some (replace_reserved s)
      | _ \<Rightarrow> None)"

text \<open>
  \<^verbatim>\<open>escapeMarkdownV2\<close> of the second version of the worker (the listing that follows the
  README): backslashes are doubled before the reserved class is escaped.
\<close>

fun escapeMarkdownV2_v2 :: "jsval \<Rightarrow> jstring option" where
  "escapeMarkdownV2_v2 text =
     (if \<not> truthy text then Some []
      else case text of
        Str s \<Rightarrow> Some (replace_reserved (replace_backslash s))
      | _ \<Rightarrow> None)"

text \<open>
  What the destination's parser shows for escaped text, in the words of the
  specification: the one backslash before an escaped character is dropped and the
  character is kept as literal text.
\<close>

fun unescape :: "jstring \<Rightarrow> jstring" where
  "unescape [] = []"
| "unescape [c] = [c]"
| "unescape (c # d # cs) = (if c = 0x5C then d # unescape cs else c # unescape (d # cs))"

section \<open>Signature verification\<close>

text \<open>
  \<^verbatim>\<open>TextEncoder.encode\<close>: the UTF-8 bytes of a code point, and of a string. A high
  surrogate followed by a low one is one code point; a surrogate on its own is encoded
  as the replacement character U+FFFD.
\<close>

type_synonym byte = "8 word"

definition utf8_point :: "nat \<Rightarrow> byte list" where
  "utf8_point n =
     (if n < 0x80 then [of_nat n]
      else if n < 0x800 then [of_nat (0xC0 + n div 64), of_nat (0x80 + n mod 64)]
      else if n < 0x10000 then
        [of_nat (0xE0 + n div 4096), of_nat (0x80 + n div 64 mod 64), of_nat (0x80 + n mod 64)]
      else
        [of_nat (0xF0 + n div 262144), of_nat (0x80 + n div 4096 mod 64),
         of_nat (0x80 + n div 64 mod 64), of_nat (0x80 + n mod 64)])"

definition high_surrogate :: "code_unit \<Rightarrow> bool" where
  "high_surrogate c = (0xD800 \<le> unat c \<and> unat c \<le> 0xDBFF)"

definition low_surrogate :: "code_unit \<Rightarrow> bool" where
  "low_surrogate c = (0xDC00 \<le> unat c \<and> unat c \<le> 0xDFFF)"

fun encode :: "jstring \<Rightarrow> byte list" where
  "encode [] = []"
| "encode [c] =
     (if high_surrogate c \<or> low_surrogate c then utf8_point 0xFFFD else utf8_point (unat c))"
| "encode (c # d # cs) =
     (if high_surrogate c \<and> low_surrogate d then
        utf8_point (0x10000 + (unat c - 0xD800) * 1024 + (unat d - 0xDC00)) @ encode cs
      else if high_surrogate c \<or> low_surrogate c then utf8_point 0xFFFD @ encode (d # cs)
      else utf8_point (unat c) @ encode (d # cs))"

text \<open>
  \<^verbatim>\<open>b.toString(16).padStart(2, "0")\<close> for a byte, and the hex string of the digest:
  \<^verbatim>\<open>Array.from(new Uint8Array(mac)).map(...).join("")\<close>.
\<close>

definition hex_digit :: "nat \<Rightarrow> code_unit" where
  "hex_digit n = J ''0123456789abcdef'' ! n"

definition toString16 :: "byte \<Rightarrow> jstring" where
  "toString16 b =
     (let n = unat b
      in if n < 16 then [hex_digit n] else [hex_digit (n div 16), hex_digit (n mod 16)])"

definition padStart2 :: "jstring \<Rightarrow> jstring" where
  "padStart2 s = replicate (2 - length s) 0x30 @ s"

definition hex_of :: "byte list \<Rightarrow> jstring" where
  "hex_of mac = concat (map (\<lambda>b. padStart2 (toString16 b)) mac)"

text \<open>
  A read of a \<^verbatim>\<open>Uint8Array\<close> as an operand of \<^verbatim>\<open>^\<close>: the byte as a 32-bit integer, and 0
  for an index past the end (\<^verbatim>\<open>undefined\<close> converts to 0).
\<close>

definition byte_at :: "byte list \<Rightarrow> nat \<Rightarrow> 32 word" where
  "byte_at xs i = (if i < length xs then ucast (xs ! i) else 0)"

text \<open>
  The loop \<^verbatim>\<open>for (let i = 0; i < encodedA.length; i++) result |= encodedA[i] ^ encodedB[i]\<close>
  on its state, the index and the accumulator; it returns the state in which it stops.
  The index then is the number of times the body has run.
\<close>

function xor_loop :: "byte list \<Rightarrow> byte list \<Rightarrow> nat \<times> 32 word \<Rightarrow> nat \<times> 32 word" where
  "xor_loop encodedA encodedB (i, result) =
     (if i < length encodedA
      then xor_loop encodedA encodedB (i + 1, result OR (byte_at encodedA i XOR byte_at encodedB i))
      else (i, result))"
  by pat_completeness auto
termination
  by (relation "measure (\<lambda>(encodedA, encodedB, i, result). length encodedA - i)") auto

text \<open>
  \<^verbatim>\<open>timingSafeEqual\<close>: the lengths of the two strings are compared first. The result is
  the returned boolean together with the number of byte pairs the loop has worked
  through, which is what the running time of the comparison depends on.
\<close>

definition timingSafeEqual :: "jstring \<Rightarrow> jstring \<Rightarrow> bool \<times> nat" where
  "timingSafeEqual a b =
     (if length a \<noteq> length b then (False, 0)
      else
        let (i, result) = xor_loop (encode a) (encode b) (0, 0)
        in (result = 0, i))"

text \<open>
  \<^verbatim>\<open>verifyGitHubSignature\<close>. The header is \<open>None\<close> when the request has none. Key import and
  signing (\<^verbatim>\<open>crypto.subtle\<close>) belong to the platform and enter as the parameter \<open>hmac\<close>,
  from the key bytes and the message bytes to the digest, or \<open>None\<close> when the platform
  rejects. The result is the returned boolean, \<open>None\<close> when the function throws, paired
  with the number of digest computations that were started.
\<close>

type_synonym hmac_sha256 = "byte list \<Rightarrow> byte list \<Rightarrow> byte list option"

definition verifyGitHubSignature ::
  "hmac_sha256 \<Rightarrow> jstring \<Rightarrow> jstring \<Rightarrow> jstring option \<Rightarrow> bool option \<times> nat" where
  "verifyGitHubSignature hmac secret body signatureHeader =
     (case signatureHeader of
        None \<Rightarrow> (Some False, 0)
      | Some h \<Rightarrow>
          if h = [] \<or> \<not> startsWith h (J ''sha256='') then (Some False, 0)
          else
            let signature = drop 7 h
            in (case hmac (encode secret) (encode body) of
                  None \<Rightarrow> (None, 1)
                | Some mac \<Rightarrow> (Some (fst (timingSafeEqual signature (hex_of mac))), 1)))"

definition ascii :: "code_unit \<Rightarrow> bool" where
  "ascii c = (unat c < 128)"

text \<open>
  The shape the specification asks of a signature header: \<^verbatim>\<open>sha256=\<close> followed by 64
  lowercase hex characters.
\<close>

definition lower_hex :: "code_unit \<Rightarrow> bool" where
  "lower_hex c = (c \<in> set (J ''0123456789abcdef''))"

definition well_formed_header :: "jstring \<Rightarrow> bool" where
  "well_formed_header h =
     (startsWith h (J ''sha256='') \<and> length (drop 7 h) = 64 \<and> list_all lower_hex (drop 7 h))"

text \<open>
  The lowercase hex rendering of a digest in the words of the specification, two digits
  for each byte, the high one first: the digits 0 to 9 are the code units from 0x30 on,
  the digits a to f those from 0x61 on.
\<close>

definition spec_hex_digit :: "nat \<Rightarrow> code_unit" where
  "spec_hex_digit n = (if n < 10 then of_nat (0x30 + n) else of_nat (0x61 + (n - 10)))"

definition spec_lower_hex :: "byte list \<Rightarrow> jstring" where
  "spec_lower_hex mac =
     concat (map (\<lambda>b. [spec_hex_digit (unat b div 16), spec_hex_digit (unat b mod 16)]) mac)"

section \<open>The formatter of worker.js\<close>

text \<open>The pictographs, with the code units that the source file holds for them.\<close>

definition STAR :: jstring where
  "STAR = [0x201A, 0x2260, 0xEA]"

definition BROKEN_HEART :: jstring where
  "BROKEN_HEART = [0xF8FF, 0xFC, 0xED, 0xEE]"

definition EYES :: jstring where
  "EYES = [0xF8FF, 0xFC, 0xEB, 0xC4]"

text \<open>The three dots appended to a shortened text: \<^verbatim>\<open>"\\.\\.\\."\<close>.\<close>

definition ELLIPSIS :: jstring where
  "ELLIPSIS = BSL @ J ''.'' @ BSL @ J ''.'' @ BSL @ J ''.''"

text \<open>
  The header line
  \<^verbatim>\<open>`*Repo:* [${repoName}](${repoUrl || "#"}) \\| *By:* [${senderName}](${senderUrl || "#"})\\n`\<close>.
  In the template \<^verbatim>\<open>\\|\<close> is a backslash and a bar, and \<^verbatim>\<open>\\n\<close> a backslash and the
  letter n.
\<close>

definition header_line :: "jsval \<Rightarrow> jstring option" where
  "header_line payload = do {
     repo \<leftarrow> get payload (J ''repository'');
     repoName \<leftarrow> escapeMarkdownV2 (or_else (get_opt repo (J ''full_name'')) (Str (J ''Unknown Repo'')));
     let repoUrl = get_opt repo (J ''html_url'');
     sender \<leftarrow> get payload (J ''sender'');
     senderName \<leftarrow> escapeMarkdownV2 (or_else (get_opt sender (J ''login'')) (Str (J ''Unknown User'')));
     let senderUrl = get_opt sender (J ''html_url'');
     ru \<leftarrow> to_string (or_else repoUrl (Str (J ''#'')));
     su \<leftarrow> to_string (or_else senderUrl (Str (J ''#'')));
     Some (J ''*Repo:* ['' @ repoName @ J '']('' @ ru @ J '') '' @ BSL @ J ''| *By:* ['' @ senderName
           @ J '']('' @ su @ J '')'' @ BSL @ J ''n'')
   }"

text \<open>The callback of \<^verbatim>\<open>commits.slice(0, 3).forEach\<close>: the line added for one commit.\<close>

definition commit_line :: "jsval \<Rightarrow> jstring option" where
  "commit_line commit = do {
     m \<leftarrow> get commit (J ''message'');
     ms \<leftarrow> the_str m;
     commitMsg \<leftarrow> escapeMarkdownV2 (Str (first_line ms));
     i \<leftarrow> get commit (J ''id'');
     is \<leftarrow> the_str i;
     commitShaShort \<leftarrow> escapeMarkdownV2 (Str (take 7 is));
     commitUrl \<leftarrow> get commit (J ''url'');
     cu \<leftarrow> to_string commitUrl;
     author \<leftarrow> get commit (J ''author'');
     name \<leftarrow> get author (J ''name'');
     username \<leftarrow> get author (J ''username'');
     who \<leftarrow> escapeMarkdownV2 (or_else name username);
     Some (J ''  '' @ BSL @ J ''- ['' @ commitShaShort @ J '']('' @ cu @ J '') '' @ commitMsg @ J '' ''
           @ BSL @ J ''- _'' @ who @ J ''_'' @ BSL @ J ''n'')
   }"

fun commit_lines :: "jsval list \<Rightarrow> jstring option" where
  "commit_lines [] = Some []"
| "commit_lines (c # cs) = do {
     l \<leftarrow> commit_line c;
     ls \<leftarrow> commit_lines cs;
     Some (l @ ls)
   }"

text \<open>\<^verbatim>\<open>payload.ref.replace("refs/heads/", "").replace("refs/tags/", "")\<close>\<close>

definition branch_name :: "jstring \<Rightarrow> jstring" where
  "branch_name ref = replace_first (J ''refs/tags/'') [] (replace_first (J ''refs/heads/'') [] ref)"

text \<open>
  \<^verbatim>\<open>case "push"\<close>, first branch: no commits and a forced push.
\<close>

definition push_forced :: "jstring \<Rightarrow> jstring \<Rightarrow> jsval \<Rightarrow> jstring option" where
  "push_forced message branch compareUrl = do {
     cu \<leftarrow> to_string compareUrl;
     Some (message @ J ''*Force Pushed* to branch `'' @ branch @ J ''` '' @ BSL @ J ''(no new commits''
           @ BSL @ J '')'' @ BSL @ J ''. [Compare changes]('' @ cu @ J '')'')
   }"

text \<open>
  Second branch, \<^verbatim>\<open>commitCount > 0\<close>: the count, then a line for each of the first three
  commits, then the number of the remaining ones. \<^verbatim>\<open>commits.slice(0, 3).forEach\<close> throws
  unless \<^verbatim>\<open>commits\<close> is an array, and then \<^verbatim>\<open>commitCount\<close> is its length.
\<close>

definition push_commits :: "jstring \<Rightarrow> jstring \<Rightarrow> jsval \<Rightarrow> jsval \<Rightarrow> jsval \<Rightarrow> jstring option" where
  "push_commits message branch commits commitCount compareUrl =
     (case commits of
        Arr cs \<Rightarrow> do {
          n \<leftarrow> to_string commitCount;
          cu \<leftarrow> to_string compareUrl;
          ls \<leftarrow> commit_lines (take 3 cs);
          Some (message @ J ''*Pushed '' @ n @ J '' commit'' @ (if 1 < length cs then J ''s'' else [])
                @ J ''* to branch `'' @ branch @ J ''`'' @ BSL @ J ''. [Compare changes]('' @ cu @ J '')''
                @ BSL @ J ''n'' @ ls
                @ (if 3 < length cs
                   then J ''  '' @ ELLIPSIS @ J '' and '' @ show_nat (length cs - 3) @ J '' more''
                        @ BSL @ J ''.'' @ BSL @ J ''n''
                   else []))
        }
      | _ \<Rightarrow> None)"

text \<open>
  The last two branches: a deleted tag gives no message, since the \<^verbatim>\<open>delete\<close> event
  reports it; anything else gives the note that the payload shows no commits.
\<close>

definition push_other :: "jstring \<Rightarrow> jstring \<Rightarrow> jstring \<Rightarrow> jsval \<Rightarrow> jsval \<Rightarrow> jstring option" where
  "push_other message ref rs payload compareUrl = do {
     deleted \<leftarrow> get payload (J ''deleted'');
     if truthy deleted \<and> startsWith rs (J ''refs/tags/'') then Some []
     else do {
       cu \<leftarrow> to_string compareUrl;
       Some (message @ J ''Pushed to `'' @ ref @ J ''` '' @ BSL
             @ J ''(no commits detected in payload, check compare link'' @ BSL @ J '')'' @ BSL
             @ J ''. [Compare changes]('' @ cu @ J '')'')
     }
   }"

text \<open>\<^verbatim>\<open>case "push"\<close>\<close>

definition push_case :: "(jstring \<Rightarrow> bool) \<Rightarrow> jstring \<Rightarrow> jsval \<Rightarrow> jstring option" where
  "push_case positive message payload = do {
     r \<leftarrow> get payload (J ''ref'');
     ref \<leftarrow> escapeMarkdownV2 r;
     rs \<leftarrow> the_str r;
     branch \<leftarrow> escapeMarkdownV2 (Str (branch_name rs));
     c \<leftarrow> get payload (J ''commits'');
     let commits = or_else c (Arr []);
     commitCount \<leftarrow> get commits (J ''length'');
     compareUrl \<leftarrow> get payload (J ''compare'');
     forced \<leftarrow> get payload (J ''forced'');
     if is_zero commitCount \<and> truthy forced then push_forced message branch compareUrl
     else do {
       pos \<leftarrow> gt_zero positive commitCount;
       if pos then push_commits message branch commits commitCount compareUrl
       else push_other message ref rs payload compareUrl
     }
   }"

text \<open>The \<^verbatim>\<open>assigned\<close> and \<^verbatim>\<open>labeled\<close> clauses shared by pull requests and issues.\<close>

definition assigned_clause :: "jsval \<Rightarrow> jstring option" where
  "assigned_clause payload = do {
     assignee \<leftarrow> get payload (J ''assignee'');
     who \<leftarrow> escapeMarkdownV2 (or_else (get_opt assignee (J ''login'')) (Str (J ''someone'')));
     Some (J '' to '' @ who)
   }"

definition labeled_clause :: "jsval \<Rightarrow> jstring option" where
  "labeled_clause payload = do {
     label \<leftarrow> get payload (J ''label'');
     name \<leftarrow> escapeMarkdownV2 (or_else (get_opt label (J ''name'')) (Str []));
     Some (J '' with label `'' @ name @ J ''`'')
   }"

text \<open>\<^verbatim>\<open>case "pull_request"\<close>: \<^verbatim>\<open>pr.number\<close> is read without a guard.\<close>

definition pull_request_case :: "jstring \<Rightarrow> jsval \<Rightarrow> jstring option" where
  "pull_request_case message payload = do {
     pr \<leftarrow> get payload (J ''pull_request'');
     prNumber \<leftarrow> get pr (J ''number'');
     t \<leftarrow> get pr (J ''title'');
     prTitle \<leftarrow> escapeMarkdownV2 t;
     prUrl \<leftarrow> get pr (J ''html_url'');
     a \<leftarrow> get payload (J ''action'');
     action \<leftarrow> escapeMarkdownV2 a;
     merged \<leftarrow> get pr (J ''merged'');
     n \<leftarrow> to_string prNumber;
     u \<leftarrow> to_string prUrl;
     let message = message @ J ''*Pull Request #'' @ n @ J '': '' @ prTitle @ J ''* ['' @ action
                   @ J '']('' @ u @ J '')'';
     if action = J ''closed'' then
       Some (message @ (if truthy merged then J '' '' @ BSL @ J ''(*Merged*'' @ BSL @ J '')''
                        else J '' '' @ BSL @ J ''(*Not Merged*'' @ BSL @ J '')''))
     else if action = J ''assigned'' then do {
       cl \<leftarrow> assigned_clause payload;
       Some (message @ cl)
     } else if action = J ''labeled'' then do {
       cl \<leftarrow> labeled_clause payload;
       Some (message @ cl)
     } else Some message
   }"

text \<open>\<^verbatim>\<open>case "issues"\<close>\<close>

definition issues_case :: "jstring \<Rightarrow> jsval \<Rightarrow> jstring option" where
  "issues_case message payload = do {
     issue \<leftarrow> get payload (J ''issue'');
     issueNumber \<leftarrow> get issue (J ''number'');
     t \<leftarrow> get issue (J ''title'');
     issueTitle \<leftarrow> escapeMarkdownV2 t;
     issueUrl \<leftarrow> get issue (J ''html_url'');
     a \<leftarrow> get payload (J ''action'');
     action \<leftarrow> escapeMarkdownV2 a;
     n \<leftarrow> to_string issueNumber;
     u \<leftarrow> to_string issueUrl;
     let message = message @ J ''*Issue #'' @ n @ J '': '' @ issueTitle @ J ''* ['' @ action
                   @ J '']('' @ u @ J '')'';
     if action = J ''assigned'' then do {
       cl \<leftarrow> assigned_clause payload;
       Some (message @ cl)
     } else if action = J ''labeled'' then do {
       cl \<leftarrow> labeled_clause payload;
       Some (message @ cl)
     } else Some message
   }"

text \<open>
  The preview of a free-form body: \<^verbatim>\<open>escapeMarkdownV2(body.substring(0, n))\<close>, followed by
  the three dots when \<^verbatim>\<open>body.length > n\<close>.
\<close>

definition preview :: "nat \<Rightarrow> jsval \<Rightarrow> jstring option" where
  "preview n body = do {
     bs \<leftarrow> the_str body;
     e \<leftarrow> escapeMarkdownV2 (Str (take n bs));
     Some (e @ (if n < length bs then ELLIPSIS else []))
   }"

text \<open>\<^verbatim>\<open>case "issue_comment"\<close> and \<^verbatim>\<open>case "commit_comment"\<close>\<close>

definition issue_comment_case :: "jstring \<Rightarrow> jsval \<Rightarrow> jstring option" where
  "issue_comment_case message payload = do {
     issue \<leftarrow> get payload (J ''issue'');
     comment \<leftarrow> get payload (J ''comment'');
     a \<leftarrow> get payload (J ''action'');
     action \<leftarrow> escapeMarkdownV2 a;
     issueNumber \<leftarrow> get issue (J ''number'');
     t \<leftarrow> get issue (J ''title'');
     issueTitle \<leftarrow> escapeMarkdownV2 t;
     commentUrl \<leftarrow> get comment (J ''html_url'');
     body \<leftarrow> get comment (J ''body'');
     commentBody \<leftarrow> preview 150 body;
     n \<leftarrow> to_string issueNumber;
     u \<leftarrow> to_string commentUrl;
     if action = J ''created'' then
       Some (message @ J ''*New Comment* on Issue [#'' @ n @ J '' '' @ issueTitle @ J '']('' @ u @ J '')''
             @ BSL @ J ''n'' @ J ''> '' @ commentBody)
     else
       Some (message @ J ''Comment '' @ action @ J '' on Issue [#'' @ n @ J '' '' @ issueTitle
             @ J '']('' @ u @ J '')'')
   }"

definition commit_comment_case :: "jstring \<Rightarrow> jsval \<Rightarrow> jstring option" where
  "commit_comment_case message payload = do {
     comment \<leftarrow> get payload (J ''comment'');
     a \<leftarrow> get payload (J ''action'');
     action \<leftarrow> escapeMarkdownV2 a;
     ci \<leftarrow> get comment (J ''commit_id'');
     cis \<leftarrow> the_str ci;
     commitShaShort \<leftarrow> escapeMarkdownV2 (Str (take 7 cis));
     commentUrl \<leftarrow> get comment (J ''html_url'');
     body \<leftarrow> get comment (J ''body'');
     commentBody \<leftarrow> preview 150 body;
     u \<leftarrow> to_string commentUrl;
     if action = J ''created'' then
       Some (message @ J ''*New Comment* on Commit [`'' @ commitShaShort @ J ''`]('' @ u @ J '')''
             @ BSL @ J ''n'' @ J ''> '' @ commentBody)
     else
       Some (message @ J ''Comment '' @ action @ J '' on Commit [`'' @ commitShaShort
             @ J ''`]('' @ u @ J '')'')
   }"

text \<open>\<^verbatim>\<open>case "release"\<close>: the notes are previewed for a published release with a body.\<close>

definition release_case :: "jstring \<Rightarrow> jsval \<Rightarrow> jstring option" where
  "release_case message payload = do {
     release \<leftarrow> get payload (J ''release'');
     a \<leftarrow> get payload (J ''action'');
     action \<leftarrow> escapeMarkdownV2 a;
     tn \<leftarrow> get release (J ''tag_name'');
     tagName \<leftarrow> escapeMarkdownV2 tn;
     rn \<leftarrow> get release (J ''name'');
     releaseName \<leftarrow> escapeMarkdownV2 (or_else rn (Str (J ''Release '' @ tagName)));
     releaseUrl \<leftarrow> get release (J ''html_url'');
     u \<leftarrow> to_string releaseUrl;
     let message = message @ J ''*Release '' @ releaseName @ J ''* ('' @ tagName @ J '') ['' @ action
                   @ J '']('' @ u @ J '')'';
     body \<leftarrow> get release (J ''body'');
     if action = J ''published'' \<and> truthy body then do {
       releaseNotes \<leftarrow> preview 200 body;
       Some (message @ BSL @ J ''n> '' @ releaseNotes)
     } else Some message
   }"

text \<open>\<^verbatim>\<open>case "create"\<close>, \<^verbatim>\<open>case "delete"\<close> and \<^verbatim>\<open>case "fork"\<close>\<close>

definition create_case :: "jstring \<Rightarrow> jsval \<Rightarrow> jstring option" where
  "create_case message payload = do {
     rt \<leftarrow> get payload (J ''ref_type'');
     refType \<leftarrow> escapeMarkdownV2 rt;
     r \<leftarrow> get payload (J ''ref'');
     refName \<leftarrow> escapeMarkdownV2 r;
     Some (message @ J ''*Created '' @ refType @ J ''*: `'' @ refName @ J ''`'')
   }"

definition delete_case :: "jstring \<Rightarrow> jsval \<Rightarrow> jstring option" where
  "delete_case message payload = do {
     rt \<leftarrow> get payload (J ''ref_type'');
     refType \<leftarrow> escapeMarkdownV2 rt;
     r \<leftarrow> get payload (J ''ref'');
     refName \<leftarrow> escapeMarkdownV2 r;
     Some (message @ J ''*Deleted '' @ refType @ J ''*: `'' @ refName @ J ''`'')
   }"

definition fork_case :: "jstring \<Rightarrow> jsval \<Rightarrow> jstring option" where
  "fork_case message payload = do {
     forkee \<leftarrow> get payload (J ''forkee'');
     fn \<leftarrow> get forkee (J ''full_name'');
     forkeeName \<leftarrow> escapeMarkdownV2 fn;
     forkeeUrl \<leftarrow> get forkee (J ''html_url'');
     u \<leftarrow> to_string forkeeUrl;
     Some (message @ J ''*Forked* repository to ['' @ forkeeName @ J '']('' @ u @ J '')'')
   }"

text \<open>
  The count clause of the star and watch cases:
  \<^verbatim>\<open>\\(${escapeMarkdownV2(count.toString())} total\\)\<close> with
  \<^verbatim>\<open>count = payload.repository[field]\<close>.
\<close>

definition total_clause :: "jsval \<Rightarrow> jstring \<Rightarrow> jstring option" where
  "total_clause payload field = do {
     repository \<leftarrow> get payload (J ''repository'');
     count \<leftarrow> get repository field;
     cs \<leftarrow> call_toString count;
     e \<leftarrow> escapeMarkdownV2 (Str cs);
     Some (BSL @ J ''('' @ e @ J '' total'' @ BSL @ J '')'')
   }"

text \<open>
  \<^verbatim>\<open>case "star"\<close> and \<^verbatim>\<open>case "watch"\<close>: the action is compared unescaped; any other action
  resets the message.
\<close>

definition star_case :: "jstring \<Rightarrow> jsval \<Rightarrow> jstring option" where
  "star_case message payload = do {
     action \<leftarrow> get payload (J ''action'');
     if action = Str (J ''created'') then do {
       t \<leftarrow> total_clause payload (J ''stargazers_count'');
       Some (message @ J ''*Starred* repository '' @ STAR @ J '' '' @ t)
     } else if action = Str (J ''deleted'') then do {
       t \<leftarrow> total_clause payload (J ''stargazers_count'');
       Some (message @ J ''*Unstarred* repository '' @ BROKEN_HEART @ J '' '' @ t)
     } else Some []
   }"

definition watch_case :: "jstring \<Rightarrow> jsval \<Rightarrow> jstring option" where
  "watch_case message payload = do {
     action \<leftarrow> get payload (J ''action'');
     if action = Str (J ''started'') then do {
       t \<leftarrow> total_clause payload (J ''watchers_count'');
       Some (message @ J ''*Started Watching* repository '' @ EYES @ J '' '' @ t)
     } else Some []
   }"

text \<open>The \<^verbatim>\<open>switch\<close> on the event type: the message after the selected case.\<close>

definition dispatch :: "(jstring \<Rightarrow> bool) \<Rightarrow> jstring \<Rightarrow> jstring \<Rightarrow> jsval \<Rightarrow> jstring option" where
  "dispatch positive eventType message payload =
     (if eventType = J ''push'' then push_case positive message payload
      else if eventType = J ''pull_request'' then pull_request_case message payload
      else if eventType = J ''issues'' then issues_case message payload
      else if eventType = J ''issue_comment'' then issue_comment_case message payload
      else if eventType = J ''commit_comment'' then commit_comment_case message payload
      else if eventType = J ''release'' then release_case message payload
      else if eventType = J ''create'' then create_case message payload
      else if eventType = J ''delete'' then delete_case message payload
      else if eventType = J ''fork'' then fork_case message payload
      else if eventType = J ''star'' then star_case message payload
      else if eventType = J ''watch'' then watch_case message payload
      else if eventType = J ''pull_request_review_comment'' then Some message
      else if eventType = J ''discussion'' then Some message
      else Some [])"

text \<open>
  The end of \<^verbatim>\<open>formatMessage\<close>. A message that is the header and nothing more is
  replaced by the empty string, after a line is logged that holds
  \<^verbatim>\<open>${payload.action || "N/A"}\<close>: the conversion of the action to a string can throw.
  Anything else is trimmed.
\<close>

definition finish :: "jstring \<Rightarrow> jstring \<Rightarrow> jsval \<Rightarrow> jstring option" where
  "finish header message payload =
     (if startsWith message header \<and> length message = length header then do {
        action \<leftarrow> get payload (J ''action'');
        logged \<leftarrow> to_string (or_else action (Str (J ''N/A'')));
        Some []
      } else Some (trim message))"

text \<open>
  \<^verbatim>\<open>formatMessage\<close> of \<^verbatim>\<open>worker.js\<close>. The result is \<open>None\<close> when the function throws. The
  parameter \<open>positive\<close> is the language's conversion of a string to a number, as far as
  \<^verbatim>\<open>commitCount > 0\<close> needs it.
\<close>

definition formatMessage :: "(jstring \<Rightarrow> bool) \<Rightarrow> jstring \<Rightarrow> jsval \<Rightarrow> jstring option" where
  "formatMessage positive eventType payload = do {
     header \<leftarrow> header_line payload;
     message \<leftarrow> dispatch positive eventType header payload;
     finish header message payload
   }"

section \<open>The second version of the worker\<close>

text \<open>
  A JavaScript number that may be \<^verbatim>\<open>NaN\<close>: \<open>None\<close> is \<^verbatim>\<open>NaN\<close>. Time values and their
  differences are whole numbers of milliseconds.
\<close>

type_synonym jsnum = "int option"

definition num_sub :: "jsnum \<Rightarrow> jsnum \<Rightarrow> jsnum" where
  "num_sub a b = (case (a, b) of (Some x, Some y) \<Rightarrow> Some (x - y) | _ \<Rightarrow> None)"

text \<open>\<^verbatim>\<open>a < k\<close> and \<^verbatim>\<open>a > k\<close> are false when \<^verbatim>\<open>a\<close> is \<^verbatim>\<open>NaN\<close>.\<close>

definition num_lt :: "jsnum \<Rightarrow> int \<Rightarrow> bool" where
  "num_lt a k = (case a of Some x \<Rightarrow> x < k | None \<Rightarrow> False)"

definition num_gt :: "jsnum \<Rightarrow> int \<Rightarrow> bool" where
  "num_gt a k = (case a of Some x \<Rightarrow> k < x | None \<Rightarrow> False)"

text \<open>\<^verbatim>\<open>Math.floor(a / k)\<close> for a positive constant \<^verbatim>\<open>k\<close>, and \<^verbatim>\<open>a % k\<close> for \<^verbatim>\<open>a\<close> not below zero.\<close>

definition num_floor_div :: "jsnum \<Rightarrow> int \<Rightarrow> jsnum" where
  "num_floor_div a k = map_option (\<lambda>x. x div k) a"

definition num_rem :: "jsnum \<Rightarrow> int \<Rightarrow> jsnum" where
  "num_rem a k = map_option (\<lambda>x. x mod k) a"

definition num_to_string :: "jsnum \<Rightarrow> jstring" where
  "num_to_string a = (case a of Some x \<Rightarrow> show_int x | None \<Rightarrow> J ''NaN'')"

text \<open>
  \<^verbatim>\<open>formatDuration\<close>. The timestamps are strings or absent (\<open>None\<close>). \<^verbatim>\<open>new Date(s)\<close>
  belongs to the platform and enters as the parameter \<open>Date\<close>: the time value in
  milliseconds, or \<^verbatim>\<open>NaN\<close> for a string that does not parse; it does not throw. The
  \<^verbatim>\<open>catch\<close> branch returns the empty string if the escaper throws.
\<close>

definition formatDuration :: "(jstring \<Rightarrow> jsnum) \<Rightarrow> jstring option \<Rightarrow> jstring option \<Rightarrow> jstring" where
  "formatDuration Date startStr endStr =
     (case (startStr, endStr) of
        (Some s, Some e) \<Rightarrow>
          if s = [] \<or> e = [] then []
          else
            let start = Date s;
                end = Date e;
                durationMs = num_sub end start
            in if num_lt durationMs 0 then []
               else
                 let seconds = num_rem (num_floor_div durationMs 1000) 60;
                     minutes = num_rem (num_floor_div durationMs (1000 * 60)) 60;
                     hours = num_floor_div durationMs (1000 * 60 * 60);
                     durationStr =
                       (if num_gt hours 0 then num_to_string hours @ J ''h '' else [])
                       @ (if num_gt minutes 0 then num_to_string minutes @ J ''m '' else [])
                       @ num_to_string seconds @ J ''s''
                 in (case escapeMarkdownV2_v2 (Str (trim durationStr)) of
                       Some d \<Rightarrow> J ''(took '' @ d @ J '')''
                     | None \<Rightarrow> [])
      | _ \<Rightarrow> [])"

text \<open>The pictographs of the second version, with the code units the listing holds.\<close>

definition STAR_V2 :: jstring where
  "STAR_V2 = [0xF0, 0x178, 0x152, 0x178]"

definition BROKEN_HEART_V2 :: jstring where
  "BROKEN_HEART_V2 = [0xF0, 0x178, 0x2019, 0x201D]"

definition EYES_V2 :: jstring where
  "EYES_V2 = [0xF0, 0x178, 0x2018, 0x20AC]"

text \<open>
  The event types of the second version whose cases are not modelled; their handlers
  enter \<open>formatMessage_v2\<close> as the parameter \<open>others\<close>.
\<close>

definition other_events_v2 :: "jstring list" where
  "other_events_v2 =
     map J
       [''create'', ''delete'', ''repository'', ''branch_protection_rule'', ''workflow_job'',
        ''workflow_run'', ''page_build'', ''check_suite'', ''check_run'', ''status'', ''issues'',
        ''pull_request'', ''pull_request_review'', ''pull_request_review_thread'',
        ''issue_comment'', ''pull_request_review_comment'', ''commit_comment'', ''discussion'',
        ''discussion_comment'', ''label'', ''dependabot_alert'', ''code_scanning_alert'', ''fork'',
        ''release'', ''package'', ''gollum'', ''team'']"

text \<open>\<^verbatim>\<open>url ? `[${name}](${url})` : name\<close>\<close>

definition link_or_name :: "jstring \<Rightarrow> jsval \<Rightarrow> jstring option" where
  "link_or_name name url =
     (if truthy url then do {
        u \<leftarrow> to_string url;
        Some (J ''['' @ name @ J '']('' @ u @ J '')'')
      } else Some name)"

text \<open>
  \<^verbatim>\<open>formatMessage\<close> of the second version: the common elements, the cases \<^verbatim>\<open>star\<close> and
  \<^verbatim>\<open>watch\<close>, and the default. There is no case \<^verbatim>\<open>push\<close> in this version.
\<close>

definition formatMessage_v2 ::
  "(jstring \<Rightarrow> jsval \<Rightarrow> jstring option) \<Rightarrow> jstring \<Rightarrow> jsval \<Rightarrow> jstring option" where
  "formatMessage_v2 others eventType payload = do {
     repo \<leftarrow> get payload (J ''repository'');
     sender \<leftarrow> get payload (J ''sender'');
     senderName \<leftarrow> escapeMarkdownV2_v2 (or_else (get_opt sender (J ''login'')) (Str (J ''unknown_user'')));
     userLink \<leftarrow> link_or_name senderName (get_opt sender (J ''html_url''));
     repoName \<leftarrow> escapeMarkdownV2_v2 (or_else (get_opt repo (J ''full_name'')) (Str []));
     repoLink \<leftarrow> (if repoName \<noteq> [] then link_or_name repoName (get_opt repo (J ''html_url''))
                 else Some []);
     action \<leftarrow> get payload (J ''action'');
     message \<leftarrow>
       (if eventType = J ''star'' then
          (if action = Str (J ''created'') then
             Some (userLink @ J '' '' @ STAR_V2 @ J '' starred '' @ repoLink)
           else if action = Str (J ''deleted'') then
             Some (userLink @ J '' '' @ BROKEN_HEART_V2 @ J '' unstarred '' @ repoLink)
           else Some [])
        else if eventType = J ''watch'' then
          (if action = Str (J ''started'') then
             Some (userLink @ J '' '' @ EYES_V2 @ J '' started watching '' @ repoLink)
           else Some [])
        else if eventType \<in> set other_events_v2 then others eventType payload
        else Some []);
     Some (trim message)
   }"

section \<open>Notions used in the statements\<close>

text \<open>
  \<open>extends h m\<close>: the message \<open>m\<close> begins with \<open>h\<close> and goes on with a character that is
  not white space.
\<close>

definition extends :: "jstring \<Rightarrow> jstring \<Rightarrow> bool" where
  "extends h m = (startsWith m h \<and> length h < length m \<and> \<not> is_space (m ! length h))"

text \<open>The case labels of the \<^verbatim>\<open>switch\<close> in \<^verbatim>\<open>worker.js\<close>.\<close>

definition recognized_events :: "jstring list" where
  "recognized_events =
     map J
       [''push'', ''pull_request'', ''issues'', ''issue_comment'', ''commit_comment'', ''release'',
        ''create'', ''delete'', ''fork'', ''star'', ''watch'', ''pull_request_review_comment'',
        ''discussion'']"

text \<open>The case labels of the \<^verbatim>\<open>switch\<close> in the second version.\<close>

definition recognized_events_v2 :: "jstring list" where
  "recognized_events_v2 = J ''star'' # J ''watch'' # other_events_v2"

text \<open>\<open>contains pat s\<close>: the pattern occurs somewhere in \<open>s\<close>.\<close>

fun contains :: "jstring \<Rightarrow> jstring \<Rightarrow> bool" where
  "contains pat [] = (pat = [])"
| "contains pat (c # cs) = (startsWith (c # cs) pat \<or> contains pat cs)"


text \<open>
  What a push message is to show of one commit, in the words of the specification: the
  first seven characters of the identifier as the text of a link to the commit, the
  first line of the message, and the author's name, each escaped as the escaper of
  \<^verbatim>\<open>worker.js\<close> escapes a string.
\<close>

definition commit_text :: "jstring \<Rightarrow> jstring \<Rightarrow> jstring \<Rightarrow> jstring \<Rightarrow> jstring" where
  "commit_text sha msg url who =
     J ''  '' @ BSL @ J ''- ['' @ replace_reserved (take 7 sha) @ J '']('' @ url @ J '') ''
     @ replace_reserved (first_line msg) @ J '' '' @ BSL @ J ''- _'' @ replace_reserved who
     @ J ''_'' @ BSL @ J ''n''"

text \<open>
  \<open>shown_author author who\<close>: the author of a commit is an object, and the name to show
  for it is \<open>who\<close>: its \<^verbatim>\<open>name\<close> when that is a non-empty string, else its \<^verbatim>\<open>username\<close>
  when the name is falsy and the username a non-empty string, else nothing when both
  are falsy.
\<close>

definition shown_author :: "jsval \<Rightarrow> jstring \<Rightarrow> bool" where
  "shown_author author who =
     (author \<noteq> Undefined \<and> author \<noteq> Null \<and>
      (if truthy (get_opt author (J ''name'')) then get_opt author (J ''name'') = Str who
       else if truthy (get_opt author (J ''username''))
         then get_opt author (J ''username'') = Str who
       else who = []))"

text \<open>
  \<open>describes commit (sha, msg, url, who)\<close>: the commit of the payload, whatever else it
  holds, has the string \<open>sha\<close> as its \<^verbatim>\<open>id\<close>, the string \<open>msg\<close> as its \<^verbatim>\<open>message\<close>, a \<^verbatim>\<open>url\<close>
  that converts to the text \<open>url\<close>, and an author shown as \<open>who\<close>.
\<close>

definition describes :: "jsval \<Rightarrow> jstring \<times> jstring \<times> jstring \<times> jstring \<Rightarrow> bool" where
  "describes commit d =
     (case d of (sha, msg, url, who) \<Rightarrow>
        get_opt commit (J ''id'') = Str sha \<and> get_opt commit (J ''message'') = Str msg \<and>
        to_string (get_opt commit (J ''url'')) = Some url \<and>
        shown_author (get_opt commit (J ''author'')) who)"
section \<open>Literals\<close>

lemma J_Nil [simp]: "J [] = []"
  by (simp add: J_def)

lemma J_Cons [simp]: "J (c # cs) = of_nat (of_char c) # J cs"
  by (simp add: J_def)

section \<open>Properties of the escaper\<close>

lemma reserved_not_backslash: "\<not> reserved 0x5C"
  by (simp add: reserved_def)

lemma unescape_plain_Cons:
  "c \<noteq> 0x5C \<Longrightarrow> unescape (c # cs) = c # unescape cs"
  by (cases cs) simp_all

lemma unescape_escaped_Cons:
  "unescape (0x5C # d # cs) = d # unescape cs"
  by simp

lemma unescape_v2_roundtrip:
  "unescape (replace_reserved (replace_backslash s)) = s"
proof (induction s)
  case Nil
  show ?case by simp
next
  case (Cons c cs)
  show ?case
  proof (cases "c = 0x5C")
    case True
    have "replace_reserved (replace_backslash (c # cs)) =
          0x5C # 0x5C # replace_reserved (replace_backslash cs)"
      using True by (simp add: reserved_not_backslash)
    then show ?thesis
      using True Cons.IH by (simp del: replace_reserved.simps replace_backslash.simps)
  next
    case False
    note plain = False
    show ?thesis
    proof (cases "reserved c")
      case True
      have "replace_reserved (replace_backslash (c # cs)) =
            0x5C # c # replace_reserved (replace_backslash cs)"
        using True plain by simp
      then show ?thesis
        using Cons.IH by (simp del: replace_reserved.simps replace_backslash.simps)
    next
      case False
      have "replace_reserved (replace_backslash (c # cs)) =
            c # replace_reserved (replace_backslash cs)"
        using False plain by simp
      then show ?thesis
        using Cons.IH plain by (simp add: unescape_plain_Cons del: unescape.simps)
    qed
  qed
qed

lemma length_v2_escape:
  "length (replace_reserved (replace_backslash s)) =
   length s + length (filter (\<lambda>c. c = 0x5C \<or> reserved c) s)"
  by (induction s) (auto simp: reserved_not_backslash)

text \<open>
  The second version keeps literal text through escaping and un-escaping, and adds
  exactly one backslash for each backslash or reserved character of the input.
\<close>

lemma escapeMarkdownV2_v2_roundtrip:
  "escapeMarkdownV2_v2 (Str s) = Some e \<Longrightarrow>
     unescape e = s \<and>
     length e = length s + length (filter (\<lambda>c. c = 0x5C \<or> reserved c) s)"
  by (cases s) (auto simp: unescape_v2_roundtrip length_v2_escape simp del: replace_reserved.simps replace_backslash.simps)

text \<open>
  Claim C1. The escaper is to escape backslashes first and then the reserved class, so
  that un-escaping the result gives the input back. The escaper of \<^verbatim>\<open>worker.js\<close> has no
  backslash pass: on the two characters backslash, \<open>a\<close> it returns its input unchanged,
  which un-escapes to the single character \<open>a\<close>. The second version returns three
  characters there, which un-escape to the input.
\<close>

theorem C1_worker_escape_loses_backslash:
  "escapeMarkdownV2 (Str (BSL @ J ''a'')) = Some (BSL @ J ''a'') \<and>
   unescape (BSL @ J ''a'') = J ''a'' \<and>
   escapeMarkdownV2_v2 (Str (BSL @ J ''a'')) = Some (BSL @ BSL @ J ''a'') \<and>
   unescape (BSL @ BSL @ J ''a'') = BSL @ J ''a''"
  by (simp add: reserved_def BSL_def)

text \<open>
  Claim C10. For every falsy argument (the empty string, \<^verbatim>\<open>null\<close>, \<^verbatim>\<open>undefined\<close>, and
  also \<^verbatim>\<open>0\<close> and \<^verbatim>\<open>false\<close>) both versions of the escaper return the empty string and do
  not throw.
\<close>

theorem C10_escape_falsy:
  "\<not> truthy v \<Longrightarrow> escapeMarkdownV2 v = Some [] \<and> escapeMarkdownV2_v2 v = Some []"
  by simp

theorem C10_escape_falsy_witness:
  "\<not> truthy Undefined \<and> \<not> truthy Null \<and> \<not> truthy (Str []) \<and>
   escapeMarkdownV2 Undefined = Some [] \<and> escapeMarkdownV2_v2 Undefined = Some [] \<and>
   escapeMarkdownV2 Null = Some [] \<and> escapeMarkdownV2_v2 Null = Some [] \<and>
   escapeMarkdownV2 (Str []) = Some [] \<and> escapeMarkdownV2_v2 (Str []) = Some []"
  using C10_escape_falsy [of Undefined] C10_escape_falsy [of Null] C10_escape_falsy [of "Str []"]
  by simp

section \<open>Properties of the signature verifier\<close>

declare xor_loop.simps [simp del]

lemma xor_loop_index: "fst (xor_loop eA eB (i, r)) = max i (length eA)"
  by (induction eA eB "(i, r)" arbitrary: i r rule: xor_loop.induct)
     (subst xor_loop.simps, auto)

lemma xor_loop_fold:
  "snd (xor_loop eA eB (i, r)) =
   fold (\<lambda>j acc. acc OR (byte_at eA j XOR byte_at eB j)) [i..<length eA] r"
  by (induction eA eB "(i, r)" arbitrary: i r rule: xor_loop.induct)
     (subst xor_loop.simps, auto simp: upt_rec)

lemma xor_zero_iff: "((x::32 word) XOR y = 0) = (x = y)"
  by (metis bit.xor_left_self xor.right_neutral)

lemma unat_ucast_8_32: "unat (ucast (x::8 word) :: 32 word) = unat x"
proof -
  have "unat x < 2 ^ 8" using unsigned_less [of x, where ?'a = nat] by simp
  then have "unat x < 2 ^ 32" by simp
  then show ?thesis by (simp add: unsigned_ucast_eq take_bit_nat_eq_self)
qed

lemma ucast_8_32_inj: "((ucast (x::8 word) :: 32 word) = ucast y) = (x = y)"
  by (metis unat_ucast_8_32 word_unat_eq_iff)

lemma all_from_split:
  "i < n \<Longrightarrow> (\<forall>j. i \<le> j \<and> j < n \<longrightarrow> P j) = (P i \<and> (\<forall>j. Suc i \<le> j \<and> j < n \<longrightarrow> P j))"
proof
  assume "i < n" and h: "\<forall>j. i \<le> j \<and> j < n \<longrightarrow> P j"
  show "P i \<and> (\<forall>j. Suc i \<le> j \<and> j < n \<longrightarrow> P j)"
    using h \<open>i < n\<close> by auto
next
  assume "i < n" and h: "P i \<and> (\<forall>j. Suc i \<le> j \<and> j < n \<longrightarrow> P j)"
  show "\<forall>j. i \<le> j \<and> j < n \<longrightarrow> P j"
  proof (intro allI impI)
    fix j assume "i \<le> j \<and> j < n"
    then show "P j" using h by (cases "j = i") auto
  qed
qed

lemma xor_loop_zero:
  "(snd (xor_loop eA eB (i, r)) = 0) =
   (r = 0 \<and> (\<forall>j. i \<le> j \<and> j < length eA \<longrightarrow> byte_at eA j = byte_at eB j))"
proof (induction eA eB "(i, r)" arbitrary: i r rule: xor_loop.induct)
  case (1 eA eB i r)
  show ?case
  proof (cases "i < length eA")
    case True
    have step: "xor_loop eA eB (i, r) =
                xor_loop eA eB (i + 1, r OR (byte_at eA i XOR byte_at eB i))"
      using True by (subst xor_loop.simps) simp
    have "(snd (xor_loop eA eB (i, r)) = 0) =
          (r OR (byte_at eA i XOR byte_at eB i) = 0 \<and>
           (\<forall>j. i + 1 \<le> j \<and> j < length eA \<longrightarrow> byte_at eA j = byte_at eB j))"
      unfolding step using "1" [OF True] by simp
    also have "\<dots> = (r = 0 \<and> (byte_at eA i = byte_at eB i \<and>
           (\<forall>j. Suc i \<le> j \<and> j < length eA \<longrightarrow> byte_at eA j = byte_at eB j)))"
      by (simp add: or_eq_0_iff xor_zero_iff)
    also have "\<dots> = (r = 0 \<and> (\<forall>j. i \<le> j \<and> j < length eA \<longrightarrow> byte_at eA j = byte_at eB j))"
      using all_from_split [OF True, of "\<lambda>j. byte_at eA j = byte_at eB j"] by simp
    finally show ?thesis .
  next
    case False
    then show ?thesis by (subst xor_loop.simps) auto
  qed
qed

text \<open>
  The comparison in full: a length mismatch gives false after no step; otherwise the
  loop runs once for every byte of the encoded first argument, whatever the bytes are,
  and the result tells whether the OR of the XORs of all the byte pairs is zero.
\<close>

lemma timingSafeEqual_run:
  "timingSafeEqual a b =
     (if length a \<noteq> length b then (False, 0)
      else (fold (\<lambda>j acc. acc OR (byte_at (encode a) j XOR byte_at (encode b) j))
              [0..<length (encode a)] 0 = 0,
            length (encode a)))"
proof -
  obtain i r where x: "xor_loop (encode a) (encode b) (0, 0) = (i, r)"
    by (cases "xor_loop (encode a) (encode b) (0, 0)") auto
  have "i = length (encode a)"
    using xor_loop_index [of "encode a" "encode b" 0 0] x by simp
  moreover have "r = fold (\<lambda>j acc. acc OR (byte_at (encode a) j XOR byte_at (encode b) j))
              [0..<length (encode a)] 0"
    using xor_loop_fold [of "encode a" "encode b" 0 0] x by simp
  ultimately show ?thesis
    by (simp add: timingSafeEqual_def x)
qed

lemma byte_of_nat_inj:
  "m < 256 \<Longrightarrow> n < 256 \<Longrightarrow> ((of_nat m :: byte) = of_nat n) = (m = n)"
  by (simp add: word_unat_eq_iff unat_of_nat)

lemma unat_byte_of_nat: "n < 256 \<Longrightarrow> unat (of_nat n :: byte) = n"
  by (simp add: unat_of_nat)

lemma byte_at_Cons_Suc: "byte_at (x # xs) (Suc j) = byte_at xs j"
  by (simp add: byte_at_def)

lemma unat_ucast_ascii: "ascii c \<Longrightarrow> unat (ucast c :: byte) = unat c"
  by (simp add: ascii_def unsigned_ucast_eq take_bit_nat_eq_self)

lemma encode_ascii_Cons:
  assumes "ascii c"
  shows "encode (c # cs) = ucast c # encode cs"
proof -
  have c: "unat c < 128" using assms by (simp add: ascii_def)
  then have s: "\<not> high_surrogate c" "\<not> low_surrogate c"
    by (simp_all add: high_surrogate_def low_surrogate_def)
  have p: "utf8_point (unat c) = [ucast c]"
    using c by (simp add: utf8_point_def)
  show ?thesis
    by (cases cs) (simp_all only: encode.simps s p if_False simp_thms append.simps)
qed

lemma utf8_point_first:
  assumes "128 \<le> n" and "n < 0x110000"
  shows "\<exists>b bs. utf8_point n = b # bs \<and> 128 \<le> unat b"
proof -
  consider "n < 0x800" | "0x800 \<le> n" "n < 0x10000" | "0x10000 \<le> n" by linarith
  then show ?thesis
  proof cases
    case 1
    define k where "k = 0xC0 + n div 64"
    have "n div 64 < 32" using 1 by simp
    then have k: "k < 256" "128 \<le> k" by (simp_all add: k_def)
    have "utf8_point n = [of_nat k, of_nat (0x80 + n mod 64)]"
      using assms(1) 1 by (simp add: utf8_point_def k_def)
    moreover have "128 \<le> unat (of_nat k :: byte)"
      using k by (simp add: unat_byte_of_nat)
    ultimately show ?thesis by blast
  next
    case 2
    define k where "k = 0xE0 + n div 4096"
    have "n div 4096 < 16" using 2 by simp
    then have k: "k < 256" "128 \<le> k" by (simp_all add: k_def)
    have "utf8_point n = [of_nat k, of_nat (0x80 + n div 64 mod 64), of_nat (0x80 + n mod 64)]"
      using assms(1) 2 by (simp add: utf8_point_def k_def)
    moreover have "128 \<le> unat (of_nat k :: byte)"
      using k by (simp add: unat_byte_of_nat)
    ultimately show ?thesis by blast
  next
    case 3
    define k where "k = 0xF0 + n div 262144"
    have "n div 262144 < 5" using assms(2) by simp
    then have k: "k < 256" "128 \<le> k" by (simp_all add: k_def)
    have "utf8_point n = [of_nat k, of_nat (0x80 + n div 4096 mod 64),
         of_nat (0x80 + n div 64 mod 64), of_nat (0x80 + n mod 64)]"
      using assms(1) 3 by (simp add: utf8_point_def k_def)
    moreover have "128 \<le> unat (of_nat k :: byte)"
      using k by (simp add: unat_byte_of_nat)
    ultimately show ?thesis by blast
  qed
qed

lemma unat_code_unit_less: "unat (c :: code_unit) < 65536"
  using unsigned_less [of c, where ?'a = nat] by simp

lemma encode_nonascii_Cons:
  assumes "\<not> ascii c"
  shows "\<exists>b bs. encode (c # cs) = b # bs \<and> 128 \<le> unat b"
proof -
  have c: "128 \<le> unat c" using assms by (simp add: ascii_def)
  have single: "\<exists>b bs. utf8_point (unat c) = b # bs \<and> 128 \<le> unat b"
    using utf8_point_first [OF c] unat_code_unit_less [of c] by simp
  have repl: "\<exists>b bs. utf8_point 0xFFFD = b # bs \<and> 128 \<le> unat b"
    by (rule utf8_point_first) simp_all
  have app: "\<exists>b bs. p @ rest = b # bs \<and> 128 \<le> unat b"
    if "\<exists>b bs. p = b # bs \<and> 128 \<le> unat b" for p rest :: "byte list"
    using that by auto
  show ?thesis
  proof (cases cs)
    case Nil
    then show ?thesis using single repl by simp
  next
    case (Cons d ds)
    show ?thesis
    proof (cases "high_surrogate c \<and> low_surrogate d")
      case True
      define n where "n = 0x10000 + (unat c - 0xD800) * 1024 + (unat d - 0xDC00)"
      have "unat c \<le> 0xDBFF" "unat d \<le> 0xDFFF"
        using True by (simp_all add: high_surrogate_def low_surrogate_def)
      then have "128 \<le> n" "n < 0x110000" by (simp_all add: n_def)
      then have "\<exists>b bs. utf8_point n = b # bs \<and> 128 \<le> unat b"
        by (rule utf8_point_first)
      then have "\<exists>b bs. utf8_point n @ encode ds = b # bs \<and> 128 \<le> unat b"
        by (rule app)
      moreover have "encode (c # cs) = utf8_point n @ encode ds"
        by (simp only: Cons encode.simps True if_True n_def simp_thms)
      ultimately show ?thesis by simp
    next
      case False
      have "encode (c # cs) =
          (if high_surrogate c \<or> low_surrogate c then utf8_point 0xFFFD @ encode (d # ds)
           else utf8_point (unat c) @ encode (d # ds))"
        by (simp only: Cons encode.simps False if_False simp_thms)
      then show ?thesis
        using app [OF single, of "encode (d # ds)"] app [OF repl, of "encode (d # ds)"]
        by (cases "high_surrogate c \<or> low_surrogate c") (simp_all only: if_True if_False)
    qed
  qed
qed

lemma bytes_agree_iff_equal:
  "length a = length b \<Longrightarrow> \<forall>c \<in> set b. ascii c \<Longrightarrow>
   (\<forall>j. j < length (encode a) \<longrightarrow> byte_at (encode a) j = byte_at (encode b) j) = (a = b)"
proof (induction a b rule: list_induct2)
  case Nil
  show ?case by simp
next
  case (Cons x xs y ys)
  have y: "ascii y" using Cons.prems by simp
  have y128: "unat y < 128" using y by (simp add: ascii_def)
  have eb: "encode (y # ys) = ucast y # encode ys"
    using y by (rule encode_ascii_Cons)
  have IH: "(\<forall>j. j < length (encode xs) \<longrightarrow> byte_at (encode xs) j = byte_at (encode ys) j) = (xs = ys)"
    using Cons by simp
  show ?case
  proof (cases "ascii x")
    case True
    have x128: "unat x < 128" using True by (simp add: ascii_def)
    have ea: "encode (x # xs) = ucast x # encode xs"
      using True by (rule encode_ascii_Cons)
    have hd_eq: "((ucast x :: byte) = ucast y) = (x = y)"
      using unat_ucast_ascii [OF True] unat_ucast_ascii [OF y] by (metis word_unat_eq_iff)
    have "(\<forall>j. j < length (encode (x # xs)) \<longrightarrow>
              byte_at (encode (x # xs)) j = byte_at (encode (y # ys)) j) =
          (byte_at (encode (x # xs)) 0 = byte_at (encode (y # ys)) 0 \<and>
           (\<forall>j. j < length (encode xs) \<longrightarrow> byte_at (encode xs) j = byte_at (encode ys) j))"
      unfolding ea eb
      by (auto simp: byte_at_Cons_Suc less_Suc_eq_0_disj)
    also have "\<dots> = (x = y \<and> xs = ys)"
      unfolding IH ea eb
      by (simp add: byte_at_def ucast_8_32_inj hd_eq)
    finally show ?thesis by simp
  next
    case False
    obtain b bs where ea: "encode (x # xs) = b # bs" and b: "128 \<le> unat b"
      using encode_nonascii_Cons [OF False] by blast
    have "unat (ucast y :: byte) = unat y"
      using y by (rule unat_ucast_ascii)
    then have "b \<noteq> ucast y" using b y128 by auto
    then have "byte_at (encode (x # xs)) 0 \<noteq> byte_at (encode (y # ys)) 0"
      unfolding ea eb by (simp add: byte_at_def ucast_8_32_inj)
    moreover have "x \<noteq> y" using False y by auto
    ultimately show ?thesis unfolding ea by auto
  qed
qed

lemma timingSafeEqual_ascii:
  assumes "\<forall>c \<in> set b. ascii c"
  shows "fst (timingSafeEqual a b) = (a = b)"
proof (cases "length a = length b")
  case True
  obtain i r where x: "xor_loop (encode a) (encode b) (0, 0) = (i, r)"
    by (cases "xor_loop (encode a) (encode b) (0, 0)") auto
  have "(r = 0) = (a = b)"
    using bytes_agree_iff_equal [OF True assms] xor_loop_zero [of "encode a" "encode b" 0 0] x
    by simp
  then show ?thesis using True by (simp add: timingSafeEqual_def x)
next
  case False
  then show ?thesis by (auto simp: timingSafeEqual_def)
qed

lemma hex_digits_ascii: "list_all (\<lambda>n. ascii (hex_digit n)) [0..<16]"
  by code_simp

lemma hex_digit_ascii: "n < 16 \<Longrightarrow> ascii (hex_digit n)"
  using hex_digits_ascii by (simp add: list_all_iff)

lemma hex_digits_spec: "list_all (\<lambda>n. hex_digit n = spec_hex_digit n) [0..<16]"
  by code_simp

lemma hex_digit_spec: "n < 16 \<Longrightarrow> hex_digit n = spec_hex_digit n"
  using hex_digits_spec by (simp add: list_all_iff)

lemma spec_hex_digit_0: "spec_hex_digit 0 = 0x30"
  by (simp add: spec_hex_digit_def)

text \<open>
  The rendering of the digest in the code is the lowercase hex rendering of the
  specification: two digits for every byte, padded with the digit 0.
\<close>

lemma hex_byte_spec:
  "padStart2 (toString16 b) = [spec_hex_digit (unat b div 16), spec_hex_digit (unat b mod 16)]"
proof (cases "unat b < 16")
  case True
  then show ?thesis
    by (simp add: padStart2_def toString16_def Let_def hex_digit_spec spec_hex_digit_0)
next
  case False
  have "unat b < 256" using unsigned_less [of b, where ?'a = nat] by simp
  then have "unat b div 16 < 16" by simp
  then show ?thesis
    using False by (simp add: padStart2_def toString16_def Let_def hex_digit_spec)
qed

lemma hex_of_spec: "hex_of mac = spec_lower_hex mac"
  by (simp add: hex_of_def spec_lower_hex_def hex_byte_spec)

lemma length_hex_of: "length (hex_of mac) = 2 * length mac"
  by (induction mac) (simp_all add: hex_of_def hex_byte_spec)

lemma hex_of_ascii: "\<forall>c \<in> set (hex_of mac). ascii c"
proof -
  have "\<forall>c \<in> set (padStart2 (toString16 b)). ascii c" for b
  proof -
    have "unat b < 256" using unsigned_less [of b, where ?'a = nat] by simp
    then have "unat b div 16 < 16" by simp
    then show ?thesis
      using hex_digit_ascii [of "unat b div 16"] hex_digit_ascii [of "unat b mod 16"]
      by (simp add: hex_byte_spec hex_digit_spec [symmetric])
  qed
  then show ?thesis by (auto simp: hex_of_def)
qed

lemma startsWith_append: "startsWith (p @ s) p"
  by (simp add: startsWith_def)

lemma length_sha256: "length (J ''sha256='') = 7"
  by simp

lemma verify_prefixed:
  assumes "hmac (encode secret) (encode body) = Some mac"
  shows "verifyGitHubSignature hmac secret body (Some (J ''sha256='' @ sig)) =
         (Some (sig = hex_of mac), 1)"
proof -
  have "startsWith (J ''sha256='' @ sig) (J ''sha256='')" by (rule startsWith_append)
  moreover have "drop 7 (J ''sha256='' @ sig) = sig" by simp
  moreover have "J ''sha256='' @ sig \<noteq> []" by simp
  ultimately show ?thesis
    using assms
    by (simp add: verifyGitHubSignature_def timingSafeEqual_ascii [OF hex_of_ascii]
        del: drop_append J_Cons)
qed

lemma sha256_prefix_decompose:
  assumes "startsWith h (J ''sha256='')"
  shows "h = J ''sha256='' @ drop 7 h"
proof -
  have "take 7 h = J ''sha256=''"
    using assms unfolding startsWith_def length_sha256 .
  then show ?thesis using append_take_drop_id [of 7 h] by metis
qed

lemma verify_no_prefix:
  "\<not> startsWith h (J ''sha256='') \<Longrightarrow>
   verifyGitHubSignature hmac secret body (Some h) = (Some False, 0)"
  by (simp add: verifyGitHubSignature_def del: J_Cons)

lemma verify_mismatch:
  assumes "hmac (encode secret) (encode body) = Some mac"
    and "h \<noteq> J ''sha256='' @ hex_of mac"
  shows "fst (verifyGitHubSignature hmac secret body (Some h)) = Some False"
proof (cases "startsWith h (J ''sha256='')")
  case True
  then have h: "h = J ''sha256='' @ drop 7 h"
    by (rule sha256_prefix_decompose)
  then have "drop 7 h \<noteq> hex_of mac" using assms(2) by auto
  then have "fst (verifyGitHubSignature hmac secret body (Some (J ''sha256='' @ drop 7 h))) = Some False"
    using verify_prefixed [of hmac secret body mac "drop 7 h"] assms(1) by simp
  then show ?thesis using h by metis
next
  case False
  then show ?thesis by (simp add: verify_no_prefix del: J_Cons)
qed

text \<open>
  Claim C2. Whenever the platform computes the digest \<open>mac\<close> of the body under the
  secret: the header \<^verbatim>\<open>sha256=\<close> followed by the lowercase hex of \<open>mac\<close>, two digits for
  each byte, verifies; the same header with any one character replaced by a different
  one does not; a signature that has not two characters for each byte of the digest
  does not, and nothing is thrown. The comparison returns false after no step on a
  length mismatch; otherwise its loop runs once for every byte of the encoded first
  argument, wherever the first difference is, ORs the XOR of every byte pair into the
  accumulator, and succeeds exactly when the accumulator is zero.
\<close>

theorem C2_signature_verification:
  assumes "hmac (encode secret) (encode body) = Some mac"
  shows
    "fst (verifyGitHubSignature hmac secret body (Some (J ''sha256='' @ spec_lower_hex mac)))
       = Some True \<and>
     (\<forall>i c. i < length (J ''sha256='' @ spec_lower_hex mac) \<and>
            c \<noteq> (J ''sha256='' @ spec_lower_hex mac) ! i \<longrightarrow>
        fst (verifyGitHubSignature hmac secret body
               (Some ((J ''sha256='' @ spec_lower_hex mac)[i := c]))) = Some False) \<and>
     (\<forall>sig. length sig \<noteq> 2 * length mac \<longrightarrow>
        fst (verifyGitHubSignature hmac secret body (Some (J ''sha256='' @ sig))) = Some False) \<and>
     (\<forall>a b. timingSafeEqual a b =
        (if length a \<noteq> length b then (False, 0)
         else (fold (\<lambda>j acc. acc OR (byte_at (encode a) j XOR byte_at (encode b) j))
                 [0..<length (encode a)] 0 = 0,
               length (encode a))))"
proof (intro conjI allI impI)
  show "fst (verifyGitHubSignature hmac secret body (Some (J ''sha256='' @ spec_lower_hex mac)))
       = Some True"
    using verify_prefixed [of hmac secret body mac "spec_lower_hex mac"] assms
    by (simp add: hex_of_spec del: J_Cons)
next
  fix i c
  assume "i < length (J ''sha256='' @ spec_lower_hex mac) \<and>
            c \<noteq> (J ''sha256='' @ spec_lower_hex mac) ! i"
  then have "(J ''sha256='' @ spec_lower_hex mac)[i := c] \<noteq> J ''sha256='' @ spec_lower_hex mac"
    by (metis nth_list_update_eq)
  then show "fst (verifyGitHubSignature hmac secret body
               (Some ((J ''sha256='' @ spec_lower_hex mac)[i := c]))) = Some False"
    using verify_mismatch [of hmac secret body mac] assms by (simp add: hex_of_spec del: J_Cons)
next
  fix sig :: jstring
  assume "length sig \<noteq> 2 * length mac"
  then have "sig \<noteq> hex_of mac" using length_hex_of [of mac] by auto
  then have "J ''sha256='' @ sig \<noteq> J ''sha256='' @ hex_of mac" by simp
  then show "fst (verifyGitHubSignature hmac secret body (Some (J ''sha256='' @ sig))) = Some False"
    using verify_mismatch [of hmac secret body mac] assms by blast
next
  fix a b
  show "timingSafeEqual a b =
        (if length a \<noteq> length b then (False, 0)
         else (fold (\<lambda>j acc. acc OR (byte_at (encode a) j XOR byte_at (encode b) j))
                 [0..<length (encode a)] 0 = 0,
               length (encode a)))"
    by (rule timingSafeEqual_run)
qed

theorem C2_signature_verification_witness:
  "(\<lambda>k m. Some [0x0f, 0xab]) (encode (J ''key'')) (encode (J ''body'')) = Some [0x0f, 0xab :: byte] \<and>
   fst (verifyGitHubSignature (\<lambda>k m. Some [0x0f, 0xab]) (J ''key'') (J ''body'')
          (Some (J ''sha256=0fab''))) = Some True \<and>
   fst (verifyGitHubSignature (\<lambda>k m. Some [0x0f, 0xab]) (J ''key'') (J ''body'')
          (Some (J ''sha256=0faa''))) = Some False \<and>
   fst (verifyGitHubSignature (\<lambda>k m. Some [0x0f, 0xab]) (J ''key'') (J ''body'')
          (Some (J ''sha256=fab''))) = Some False \<and>
   timingSafeEqual (J ''abc'') (J ''ab'') = (False, 0) \<and>
   timingSafeEqual (J ''0fab'') (J ''1fab'') = (False, 4) \<and>
   timingSafeEqual (J ''0fab'') (J ''0fac'') = (False, 4) \<and>
   timingSafeEqual (J ''0fab'') (J ''0fab'') = (True, 4)"
proof -
  let ?hmac = "\<lambda>k m :: byte list. Some [0x0f, 0xab :: byte]"
  have h: "?hmac (encode (J ''key'')) (encode (J ''body'')) = Some [0x0f, 0xab]" by simp
  have hex: "spec_lower_hex [0x0f, 0xab] = J ''0fab''" by code_simp
  have pre: "J ''sha256='' @ J ''0fab'' = J ''sha256=0fab''" by simp
  note C = C2_signature_verification [of ?hmac "J ''key''" "J ''body''" "[0x0f, 0xab]", OF h,
      unfolded hex pre]
  have 1: "fst (verifyGitHubSignature ?hmac (J ''key'') (J ''body'') (Some (J ''sha256=0fab''))) = Some True"
    using C by blast
  have "\<forall>i c. i < length (J ''sha256=0fab'') \<and> c \<noteq> J ''sha256=0fab'' ! i \<longrightarrow>
        fst (verifyGitHubSignature ?hmac (J ''key'') (J ''body'')
               (Some ((J ''sha256=0fab'')[i := c]))) = Some False"
    using C by blast
  then have "10 < length (J ''sha256=0fab'') \<and> 0x61 \<noteq> J ''sha256=0fab'' ! 10 \<longrightarrow>
        fst (verifyGitHubSignature ?hmac (J ''key'') (J ''body'')
               (Some ((J ''sha256=0fab'')[10 := 0x61]))) = Some False"
    by blast
  moreover have "10 < length (J ''sha256=0fab'') \<and> 0x61 \<noteq> J ''sha256=0fab'' ! 10"
    by simp
  moreover have "(J ''sha256=0fab'')[10 := 0x61] = J ''sha256=0faa''"
    by simp
  ultimately have 2: "fst (verifyGitHubSignature ?hmac (J ''key'') (J ''body'')
      (Some (J ''sha256=0faa''))) = Some False"
    by metis
  have "\<forall>sig. length sig \<noteq> 2 * length [0x0f, 0xab :: byte] \<longrightarrow>
        fst (verifyGitHubSignature ?hmac (J ''key'') (J ''body'') (Some (J ''sha256='' @ sig))) = Some False"
    using C by blast
  then have "length (J ''fab'') \<noteq> 2 * length [0x0f, 0xab :: byte] \<longrightarrow>
        fst (verifyGitHubSignature ?hmac (J ''key'') (J ''body'') (Some (J ''sha256='' @ J ''fab''))) = Some False"
    by blast
  then have 3: "fst (verifyGitHubSignature ?hmac (J ''key'') (J ''body'') (Some (J ''sha256=fab''))) = Some False"
    by simp
  have T: "\<forall>a b. timingSafeEqual a b =
        (if length a \<noteq> length b then (False, 0)
         else (fold (\<lambda>j acc. acc OR (byte_at (encode a) j XOR byte_at (encode b) j))
                 [0..<length (encode a)] 0 = 0,
               length (encode a)))"
    using C by blast
  have 4: "timingSafeEqual (J ''abc'') (J ''ab'') = (False, 0)"
    using T by simp
  have e: "encode (J ''0fab'') = [0x30, 0x66, 0x61, 0x62]"
    "encode (J ''1fab'') = [0x31, 0x66, 0x61, 0x62]"
    "encode (J ''0fac'') = [0x30, 0x66, 0x61, 0x63]"
    by (simp_all add: encode_ascii_Cons ascii_def del: encode.simps(2-))
  have f1: "(fold (\<lambda>j acc. acc OR (byte_at (encode (J ''0fab'')) j XOR byte_at (encode (J ''1fab'')) j))
                 [0..<length (encode (J ''0fab''))] 0 = 0, length (encode (J ''0fab''))) = (False, 4)"
    unfolding e by (simp add: byte_at_def upt_rec)
  have f2: "(fold (\<lambda>j acc. acc OR (byte_at (encode (J ''0fab'')) j XOR byte_at (encode (J ''0fac'')) j))
                 [0..<length (encode (J ''0fab''))] 0 = 0, length (encode (J ''0fab''))) = (False, 4)"
    unfolding e by (simp add: byte_at_def upt_rec)
  have f3: "(fold (\<lambda>j acc. acc OR (byte_at (encode (J ''0fab'')) j XOR byte_at (encode (J ''0fab'')) j))
                 [0..<length (encode (J ''0fab''))] 0 = 0, length (encode (J ''0fab''))) = (True, 4)"
    unfolding e by (simp add: byte_at_def upt_rec)
  have l: "length (J ''0fab'') = length (J ''1fab'')" "length (J ''0fab'') = length (J ''0fac'')"
    by simp_all
  have 5: "timingSafeEqual (J ''0fab'') (J ''1fab'') = (False, 4)"
    using T f1 l(1) by (simp only: simp_thms if_False)
  have 6: "timingSafeEqual (J ''0fab'') (J ''0fac'') = (False, 4)"
    using T f2 l(2) by (simp only: simp_thms if_False)
  have 7: "timingSafeEqual (J ''0fab'') (J ''0fab'') = (True, 4)"
    using T f3 by (simp only: simp_thms if_False)
  show ?thesis using h 1 2 3 4 5 6 7 by (intro conjI)
qed

text \<open>
  Claim C4 says that every header that is not \<^verbatim>\<open>sha256=\<close> followed by 64 lowercase hex
  characters is rejected before any digest is computed. The header \<^verbatim>\<open>sha256=zz\<close> is not
  of that shape, and the verifier rejects it only after one digest computation.
\<close>

theorem C4_malformed_header_digest_counterexample:
  "\<not> well_formed_header (J ''sha256=zz'') \<and>
   verifyGitHubSignature (\<lambda>k m. Some []) (J ''key'') (J ''body'') (Some (J ''sha256=zz''))
     = (Some False, 1)"
  by code_simp

text \<open>
  Claim C4, amended. The verifier returns false without computing a digest for every
  header that is absent or does not begin with \<^verbatim>\<open>sha256=\<close>. For a header that has the
  prefix and differs from the expected one (wrong length and non-hex content included)
  it computes the digest once and then returns false, when the digest computation
  succeeds.
\<close>

theorem C4_prefix_guard_only:
  "(signatureHeader = None \<or> (\<exists>h. signatureHeader = Some h \<and> \<not> startsWith h (J ''sha256='')) \<longrightarrow>
      verifyGitHubSignature hmac secret body signatureHeader = (Some False, 0)) \<and>
   (\<forall>h mac. signatureHeader = Some h \<and> startsWith h (J ''sha256='') \<and>
      hmac (encode secret) (encode body) = Some mac \<and> h \<noteq> J ''sha256='' @ hex_of mac \<longrightarrow>
      verifyGitHubSignature hmac secret body signatureHeader = (Some False, 1))"
proof (intro conjI allI impI)
  assume "signatureHeader = None \<or> (\<exists>h. signatureHeader = Some h \<and> \<not> startsWith h (J ''sha256=''))"
  then show "verifyGitHubSignature hmac secret body signatureHeader = (Some False, 0)"
    by (auto simp: verifyGitHubSignature_def simp del: J_Cons)
next
  fix h mac
  assume a: "signatureHeader = Some h \<and> startsWith h (J ''sha256='') \<and>
      hmac (encode secret) (encode body) = Some mac \<and> h \<noteq> J ''sha256='' @ hex_of mac"
  then have h: "h = J ''sha256='' @ drop 7 h"
    using sha256_prefix_decompose [of h] by blast
  then have "drop 7 h \<noteq> hex_of mac" using a by auto
  then have "verifyGitHubSignature hmac secret body (Some (J ''sha256='' @ drop 7 h)) = (Some False, 1)"
    using verify_prefixed [of hmac secret body mac "drop 7 h"] a by simp
  then have "verifyGitHubSignature hmac secret body (Some h) = (Some False, 1)"
    using h by metis
  then show "verifyGitHubSignature hmac secret body signatureHeader = (Some False, 1)"
    using a by simp
qed

theorem C4_prefix_guard_only_witness:
  "verifyGitHubSignature (\<lambda>k m. None) (J ''key'') (J ''body'') (Some (J ''sha1=12ab'')) = (Some False, 0) \<and>
   verifyGitHubSignature (\<lambda>k m. Some [0x12, 0xab]) (J ''key'') (J ''body'') (Some (J ''sha256=12''))
     = (Some False, 1)"
proof -
  have n: "\<not> startsWith (J ''sha1=12ab'') (J ''sha256='')" by code_simp
  have 1: "verifyGitHubSignature (\<lambda>k m. None) (J ''key'') (J ''body'') (Some (J ''sha1=12ab'')) = (Some False, 0)"
    using C4_prefix_guard_only [of "Some (J ''sha1=12ab'')" "\<lambda>k m. None" "J ''key''" "J ''body''"] n
    by blast
  have hex: "hex_of [0x12, 0xab] = J ''12ab''" by code_simp
  have s: "startsWith (J ''sha256=12'') (J ''sha256='')" by code_simp
  have d: "J ''sha256=12'' \<noteq> J ''sha256='' @ J ''12ab''" by simp
  have 2: "verifyGitHubSignature (\<lambda>k m. Some [0x12, 0xab]) (J ''key'') (J ''body'') (Some (J ''sha256=12'')) = (Some False, 1)"
    using C4_prefix_guard_only [of "Some (J ''sha256=12'')" "\<lambda>k m. Some [0x12, 0xab]" "J ''key''" "J ''body''"]
      s d hex by (metis (no_types, lifting))
  show ?thesis using 1 2 by blast
qed

section \<open>Properties of the formatter\<close>

lemma extendsI: "\<not> is_space c \<Longrightarrow> extends h (h @ c # rest)"
  by (simp add: extends_def startsWith_def)

lemma extends_append: "extends h m \<Longrightarrow> extends h (m @ t)"
  by (auto simp: extends_def startsWith_def nth_append)

lemma not_space_simps:
  "\<not> is_space 0x2A" "\<not> is_space 0x50" "\<not> is_space 0x43"
  by (simp_all add: is_space_def)

lemma bindE:
  "Option.bind m f = Some r \<Longrightarrow> (\<And>x. m = Some x \<Longrightarrow> f x = Some r \<Longrightarrow> P) \<Longrightarrow> P"
  by (cases m) auto

lemma create_case_extends: "create_case h p = Some m \<Longrightarrow> extends h m"
  unfolding create_case_def Let_def
  apply (erule bindE)+
  apply (auto simp: extendsI not_space_simps elim!: bindE split: if_split_asm)
  done

lemma delete_case_extends: "delete_case h p = Some m \<Longrightarrow> extends h m"
  unfolding delete_case_def Let_def
  apply (erule bindE)+
  apply (auto simp: extendsI not_space_simps elim!: bindE split: if_split_asm)
  done

lemma fork_case_extends: "fork_case h p = Some m \<Longrightarrow> extends h m"
  unfolding fork_case_def Let_def
  apply (erule bindE)+
  apply (auto simp: extendsI not_space_simps elim!: bindE split: if_split_asm)
  done

lemma release_case_extends: "release_case h p = Some m \<Longrightarrow> extends h m"
  unfolding release_case_def Let_def
  apply (erule bindE)+
  apply (auto simp: extendsI not_space_simps elim!: bindE split: if_split_asm)
  done

lemma commit_comment_case_extends: "commit_comment_case h p = Some m \<Longrightarrow> extends h m"
  unfolding commit_comment_case_def Let_def
  apply (erule bindE)+
  apply (auto simp: extendsI not_space_simps elim!: bindE split: if_split_asm)
  done

lemma issue_comment_case_extends: "issue_comment_case h p = Some m \<Longrightarrow> extends h m"
  unfolding issue_comment_case_def Let_def
  apply (erule bindE)+
  apply (auto simp: extendsI not_space_simps elim!: bindE split: if_split_asm)
  done

lemma issues_case_extends: "issues_case h p = Some m \<Longrightarrow> extends h m"
  unfolding issues_case_def Let_def
  apply (erule bindE)+
  apply (auto simp: extendsI not_space_simps elim!: bindE split: if_split_asm)
  done

lemma pull_request_case_extends: "pull_request_case h p = Some m \<Longrightarrow> extends h m"
  unfolding pull_request_case_def Let_def
  apply (erule bindE)+
  apply (auto simp: extendsI not_space_simps elim!: bindE split: if_split_asm)
  done

lemma star_case_extends: "star_case h p = Some m \<Longrightarrow> m = [] \<or> extends h m"
  unfolding star_case_def Let_def
  apply (erule bindE)+
  apply (auto simp: extendsI not_space_simps elim!: bindE split: if_split_asm)
  done

lemma watch_case_extends: "watch_case h p = Some m \<Longrightarrow> m = [] \<or> extends h m"
  unfolding watch_case_def Let_def
  apply (erule bindE)+
  apply (auto simp: extendsI not_space_simps elim!: bindE split: if_split_asm)
  done

lemma push_forced_extends: "push_forced h b cu = Some m \<Longrightarrow> extends h m"
  unfolding push_forced_def
  apply (erule bindE)+
  apply (auto simp: extendsI not_space_simps)
  done

lemma push_commits_extends: "push_commits h b cs n cu = Some m \<Longrightarrow> extends h m"
  unfolding push_commits_def
  apply (cases cs; simp)
  apply (erule bindE)+
  apply (auto simp: extendsI not_space_simps)
  done

lemma push_other_extends: "push_other h r rs p cu = Some m \<Longrightarrow> m = [] \<or> extends h m"
  unfolding push_other_def
  apply (erule bindE)+
  apply (auto simp: extendsI not_space_simps elim!: bindE split: if_split_asm)
  done

lemma push_case_extends: "push_case positive h p = Some m \<Longrightarrow> m = [] \<or> extends h m"
  unfolding push_case_def Let_def
  apply (erule bindE)+
  apply (auto dest: push_forced_extends push_commits_extends push_other_extends
              elim!: bindE split: if_split_asm)
  done

lemma extendsE:
  assumes "extends h m"
  obtains c rest where "m = h @ c # rest" and "\<not> is_space c"
proof -
  from assms have t: "take (length h) m = h" and l: "length h < length m"
    and n: "\<not> is_space (m ! length h)"
    by (simp_all add: extends_def startsWith_def)
  from l have "drop (length h) m = (m ! length h) # drop (Suc (length h)) m"
    by (simp add: Cons_nth_drop_Suc)
  then have "m = h @ (m ! length h) # drop (Suc (length h)) m"
    using t append_take_drop_id [of "length h" m] by simp
  then show ?thesis using n that by blast
qed

lemma dispatch_cases:
  assumes "dispatch positive e h p = Some m"
  shows "m = [] \<or> m = h \<or> extends h m"
proof -
  consider "e = J ''push''" | "e = J ''pull_request''" | "e = J ''issues''"
    | "e = J ''issue_comment''"
    | "e = J ''commit_comment''" | "e = J ''release''" | "e = J ''create''" | "e = J ''delete''"
    | "e = J ''fork''" | "e = J ''star''" | "e = J ''watch''"
    | "e = J ''pull_request_review_comment'' \<or> e = J ''discussion''"
    | "e \<notin> set recognized_events"
    unfolding recognized_events_def by (auto simp del: J_Cons)
  then show ?thesis
  proof cases
    case 1 then show ?thesis using assms by (auto simp: dispatch_def dest: push_case_extends)
  next
    case 2 then show ?thesis using assms by (auto simp: dispatch_def dest: pull_request_case_extends)
  next
    case 3 then show ?thesis using assms by (auto simp: dispatch_def dest: issues_case_extends)
  next
    case 4 then show ?thesis using assms by (auto simp: dispatch_def dest: issue_comment_case_extends)
  next
    case 5 then show ?thesis using assms by (auto simp: dispatch_def dest: commit_comment_case_extends)
  next
    case 6 then show ?thesis using assms by (auto simp: dispatch_def dest: release_case_extends)
  next
    case 7 then show ?thesis using assms by (auto simp: dispatch_def dest: create_case_extends)
  next
    case 8 then show ?thesis using assms by (auto simp: dispatch_def dest: delete_case_extends)
  next
    case 9 then show ?thesis using assms by (auto simp: dispatch_def dest: fork_case_extends)
  next
    case 10 then show ?thesis using assms by (auto simp: dispatch_def dest: star_case_extends)
  next
    case 11 then show ?thesis using assms by (auto simp: dispatch_def dest: watch_case_extends)
  next
    case 12 then show ?thesis using assms by (auto simp: dispatch_def)
  next
    case 13 then show ?thesis using assms
      by (simp add: dispatch_def recognized_events_def del: J_Cons)
  qed
qed

lemma header_line_starts:
  "header_line p = Some h \<Longrightarrow> \<exists>t. h = 0x2A # t"
  unfolding header_line_def Let_def
  apply (erule bindE)+
  apply auto
  done

lemma trim_extends:
  assumes "h = c0 # t" and "\<not> is_space c0" and "extends h m"
  shows "extends h (trim m)"
proof -
  from assms(3) obtain c rest where m: "m = h @ c # rest" and c: "\<not> is_space c"
    by (rule extendsE)
  have front: "dropWhile is_space m = m"
    using assms(1,2) m by simp
  have "\<exists>zs. dropWhile is_space (rev rest @ c # rev h) = zs @ c # rev h"
  proof (cases "\<forall>x \<in> set (rev rest). is_space x")
    case True
    then have "dropWhile is_space (rev rest @ c # rev h) = dropWhile is_space (c # rev h)"
      by (simp add: dropWhile_append)
    then show ?thesis using c by auto
  next
    case False
    then have "dropWhile is_space (rev rest @ c # rev h) =
               dropWhile is_space (rev rest) @ c # rev h"
      by (metis dropWhile_append1)
    then show ?thesis by blast
  qed
  then obtain zs where "dropWhile is_space (rev rest @ c # rev h) = zs @ c # rev h" ..
  then have "rev (dropWhile is_space (rev m)) = h @ c # rev zs"
    by (simp add: m)
  then have "trim m = h @ c # rev zs"
    unfolding trim_def front .
  then show ?thesis using c by (simp add: extendsI)
qed

lemma finish_result:
  assumes "h = c0 # t" and "\<not> is_space c0" and "m = [] \<or> m = h \<or> extends h m"
    and "finish h m p = Some r"
  shows "r = [] \<or> extends h r"
proof -
  consider "m = []" | "m = h" | "extends h m" using assms(3) by blast
  then show ?thesis
  proof cases
    case 1
    then show ?thesis using assms(1,4) by (simp add: finish_def trim_def startsWith_def)
  next
    case 2
    then show ?thesis using assms(4)
      by (auto simp: finish_def startsWith_def elim!: bindE)
  next
    case 3
    then have "length m \<noteq> length h" by (simp add: extends_def)
    then have "r = trim m" using assms(4) by (simp add: finish_def)
    then show ?thesis using trim_extends [OF assms(1,2) 3] by simp
  qed
qed

lemma formatMessage_result:
  assumes "formatMessage positive e p = Some m"
  shows "\<exists>h. header_line p = Some h \<and> (m = [] \<or> extends h m)"
proof -
  from assms obtain h d where h: "header_line p = Some h"
    and d: "dispatch positive e h p = Some d" and m: "finish h d p = Some m"
    unfolding formatMessage_def by (auto elim!: bindE)
  from h obtain t where t: "h = 0x2A # t" using header_line_starts by blast
  have "m = [] \<or> extends h m"
    using finish_result [OF t _ dispatch_cases [OF d] m] not_space_simps(1) by blast
  then show ?thesis using h by blast
qed

lemma extends_startsWith: "extends h m \<Longrightarrow> startsWith m h \<and> m \<noteq> h \<and> m \<noteq> []"
  by (auto simp: extends_def)

text \<open>
  Every string that the formatter of \<^verbatim>\<open>worker.js\<close> returns is empty or begins with the
  header line and goes on after it; the bare header is never returned.
\<close>

lemma formatMessage_begins_with_header:
  assumes "formatMessage positive e p = Some m" and "m \<noteq> []"
  shows "\<exists>h. header_line p = Some h \<and> startsWith m h \<and> length h < length m"
  using formatMessage_result [OF assms(1)] assms(2) by (auto simp: extends_def)

lemma formatMessage_never_header_only:
  assumes "header_line p = Some h"
  shows "formatMessage positive e p \<noteq> Some h"
proof
  assume a: "formatMessage positive e p = Some h"
  obtain t where t: "h = 0x2A # t" using header_line_starts [OF assms] by blast
  from formatMessage_result [OF a] assms have "h = [] \<or> extends h h" by simp
  then show False using t by (simp add: extends_def)
qed

text \<open>
  When the selected case leaves the message equal to the header, the formatter logs a
  line that holds the action and returns the empty string; it throws when the action
  cannot be converted to a string.
\<close>

lemma formatMessage_header_only:
  assumes "header_line p = Some h" and "dispatch positive e h p = Some h"
  shows "formatMessage positive e p =
         map_option (\<lambda>logged. []) (to_string (or_else (get_opt p (J ''action'')) (Str (J ''N/A''))))"
proof -
  obtain repo where "get p (J ''repository'') = Some repo"
    using assms(1) unfolding header_line_def by (auto elim!: bindE simp del: J_Cons)
  then have g: "get p (J ''action'') = Some (get_opt p (J ''action''))"
    by (cases p) (simp_all add: get_opt_def del: J_Cons)
  show ?thesis
    by (cases "to_string (or_else (get_opt p (J ''action'')) (Str (J ''N/A'')))")
       (simp_all add: formatMessage_def assms finish_def startsWith_def g del: J_Cons)
qed

text \<open>
  For an event type that has no case in the \<^verbatim>\<open>switch\<close>, the formatter of \<^verbatim>\<open>worker.js\<close>
  returns the empty string exactly when the header line can be built, and throws
  otherwise.
\<close>

lemma formatMessage_unrecognized:
  assumes "e \<notin> set recognized_events"
  shows "formatMessage positive e p = map_option (\<lambda>h. []) (header_line p)"
proof (cases "header_line p")
  case None
  then show ?thesis by (simp add: formatMessage_def)
next
  case (Some h)
  obtain t where t: "h = 0x2A # t" using header_line_starts [OF Some] by blast
  have "dispatch positive e h p = Some []"
    using assms by (simp add: dispatch_def recognized_events_def del: J_Cons)
  then show ?thesis
    by (simp add: formatMessage_def Some finish_def trim_def startsWith_def t)
qed

lemma trim_Nil: "trim [] = []"
  by (simp add: trim_def)

lemma formatMessage_v2_unrecognized:
  assumes "e \<notin> set recognized_events_v2"
    and "formatMessage_v2 others e p = Some m"
  shows "m = []"
proof -
  have e: "e \<noteq> J ''star''" "e \<noteq> J ''watch''" "e \<notin> set other_events_v2"
    using assms(1) by (auto simp: recognized_events_v2_def simp del: J_Cons)
  show ?thesis
    using assms(2) unfolding formatMessage_v2_def
    apply (elim bindE)
    apply (simp only: e if_False option.inject trim_Nil)
    done
qed

text \<open>
  The header line can be built exactly when the payload is neither \<^verbatim>\<open>undefined\<close> nor
  \<^verbatim>\<open>null\<close>, the names of the repository and the sender can be escaped (each is falsy
  or a string) and the two links convert to text; it then holds the escaped names and
  the links, with \<^verbatim>\<open>Unknown Repo\<close>, \<^verbatim>\<open>Unknown User\<close> and \<^verbatim>\<open>#\<close> in the place of a falsy
  value.
\<close>

lemma get_defined: "v \<noteq> Undefined \<Longrightarrow> v \<noteq> Null \<Longrightarrow> get v k = Some (get_opt v k)"
  by (cases v) (simp_all add: get_opt_def del: J_Cons)

lemma header_line_form:
  "header_line p = Some h \<longleftrightarrow>
     p \<noteq> Undefined \<and> p \<noteq> Null \<and>
     (\<exists>repoName ru senderName su.
        escapeMarkdownV2 (or_else (get_opt (get_opt p (J ''repository'')) (J ''full_name''))
                                  (Str (J ''Unknown Repo''))) = Some repoName \<and>
        to_string (or_else (get_opt (get_opt p (J ''repository'')) (J ''html_url'')) (Str (J ''#'')))
          = Some ru \<and>
        escapeMarkdownV2 (or_else (get_opt (get_opt p (J ''sender'')) (J ''login''))
                                  (Str (J ''Unknown User''))) = Some senderName \<and>
        to_string (or_else (get_opt (get_opt p (J ''sender'')) (J ''html_url'')) (Str (J ''#'')))
          = Some su \<and>
        h = J ''*Repo:* ['' @ repoName @ J '']('' @ ru @ J '') '' @ BSL @ J ''| *By:* ['' @ senderName
            @ J '']('' @ su @ J '')'' @ BSL @ J ''n'')"
proof (cases "p = Undefined \<or> p = Null")
  case True
  then have "header_line p = None"
    unfolding header_line_def by (auto simp del: J_Cons)
  then show ?thesis using True by auto
next
  case False
  then have g: "\<And>k. get p k = Some (get_opt p k)" by (simp add: get_defined)
  define a where "a = escapeMarkdownV2 (or_else (get_opt (get_opt p (J ''repository'')) (J ''full_name''))
                                  (Str (J ''Unknown Repo'')))"
  define b where "b = to_string (or_else (get_opt (get_opt p (J ''repository'')) (J ''html_url'')) (Str (J ''#'')))"
  define c where "c = escapeMarkdownV2 (or_else (get_opt (get_opt p (J ''sender'')) (J ''login''))
                                  (Str (J ''Unknown User'')))"
  define d where "d = to_string (or_else (get_opt (get_opt p (J ''sender'')) (J ''html_url'')) (Str (J ''#'')))"
  have "header_line p = do {
     repoName \<leftarrow> a;
     senderName \<leftarrow> c;
     ru \<leftarrow> b;
     su \<leftarrow> d;
     Some (J ''*Repo:* ['' @ repoName @ J '']('' @ ru @ J '') '' @ BSL @ J ''| *By:* ['' @ senderName
           @ J '']('' @ su @ J '')'' @ BSL @ J ''n'') }"
    unfolding header_line_def Let_def a_def b_def c_def d_def
    by (simp add: g del: J_Cons escapeMarkdownV2.simps)
  then show ?thesis
    using False
    unfolding a_def [symmetric] b_def [symmetric] c_def [symmetric] d_def [symmetric]
    by (cases a; cases b; cases c; cases d) (auto simp del: J_Cons)
qed

lemmas value_defs = get_opt_def or_else_def call_toString_def BSL_def reserved_def startsWith_def
  trim_def is_space_def length_num_def Let_def

lemmas worker_defs = formatMessage_def header_line_def dispatch_def finish_def push_case_def
  push_forced_def push_commits_def push_other_def commit_line_def branch_name_def ELLIPSIS_def
  pull_request_case_def star_case_def watch_case_def total_clause_def create_case_def

lemmas v2_defs = formatMessage_v2_def link_or_name_def other_events_v2_def
  recognized_events_v2_def

text \<open>
  Claim C3 says that the formatter does not throw when a field is missing, in
  particular for a pull request payload without \<^verbatim>\<open>pull_request\<close>, a star payload
  without \<^verbatim>\<open>repository.stargazers_count\<close> and a push payload without \<^verbatim>\<open>ref\<close>. On each
  of the three the formatter of \<^verbatim>\<open>worker.js\<close> throws.
\<close>

theorem C3_missing_fields_throw:
  "formatMessage (\<lambda>s. False) (J ''pull_request'') (Obj [(J ''action'', Str (J ''opened''))]) = None \<and>
   formatMessage (\<lambda>s. False) (J ''star'')
     (Obj [(J ''action'', Str (J ''created'')),
           (J ''repository'', Obj [(J ''full_name'', Str (J ''a/b''))])]) = None \<and>
   formatMessage (\<lambda>s. False) (J ''push'') (Obj [(J ''commits'', Arr [])]) = None"
  by (simp add: worker_defs value_defs)

text \<open>
  Claim C7 asks, for the star payload with \<^verbatim>\<open>repository.full_name = "a/b"\<close> and
  \<^verbatim>\<open>sender.login = "u"\<close>, a non-empty message for the actions \<^verbatim>\<open>created\<close> and \<^verbatim>\<open>deleted\<close>
  and the empty string for \<^verbatim>\<open>edited\<close>. The formatter of \<^verbatim>\<open>worker.js\<close> throws for
  \<^verbatim>\<open>created\<close> and \<^verbatim>\<open>deleted\<close>, since the payload has no \<^verbatim>\<open>stargazers_count\<close>; the second
  version returns the three results asked for.
\<close>

theorem C7_star_without_count_throws:
  "formatMessage (\<lambda>s. False) (J ''star'')
     (Obj [(J ''action'', Str (J ''created'')), (J ''repository'', Obj [(J ''full_name'', Str (J ''a/b''))]),
           (J ''sender'', Obj [(J ''login'', Str (J ''u''))])]) = None \<and>
   formatMessage (\<lambda>s. False) (J ''star'')
     (Obj [(J ''action'', Str (J ''deleted'')), (J ''repository'', Obj [(J ''full_name'', Str (J ''a/b''))]),
           (J ''sender'', Obj [(J ''login'', Str (J ''u''))])]) = None \<and>
   formatMessage (\<lambda>s. False) (J ''star'')
     (Obj [(J ''action'', Str (J ''edited'')), (J ''repository'', Obj [(J ''full_name'', Str (J ''a/b''))]),
           (J ''sender'', Obj [(J ''login'', Str (J ''u''))])]) = Some [] \<and>
   formatMessage_v2 (\<lambda>e p. None) (J ''star'')
     (Obj [(J ''action'', Str (J ''created'')), (J ''repository'', Obj [(J ''full_name'', Str (J ''a/b''))]),
           (J ''sender'', Obj [(J ''login'', Str (J ''u''))])])
     = Some (J ''u '' @ STAR_V2 @ J '' starred a/b'') \<and>
   formatMessage_v2 (\<lambda>e p. None) (J ''star'')
     (Obj [(J ''action'', Str (J ''deleted'')), (J ''repository'', Obj [(J ''full_name'', Str (J ''a/b''))]),
           (J ''sender'', Obj [(J ''login'', Str (J ''u''))])])
     = Some (J ''u '' @ BROKEN_HEART_V2 @ J '' unstarred a/b'') \<and>
   formatMessage_v2 (\<lambda>e p. None) (J ''star'')
     (Obj [(J ''action'', Str (J ''edited'')), (J ''repository'', Obj [(J ''full_name'', Str (J ''a/b''))]),
           (J ''sender'', Obj [(J ''login'', Str (J ''u''))])]) = Some []"
  by (simp add: worker_defs v2_defs value_defs STAR_V2_def BROKEN_HEART_V2_def)

text \<open>
  A timestamp that does not parse gives the text \<^verbatim>\<open>(took NaNs)\<close>; an end before the
  start gives the empty string.
\<close>

lemma formatDuration_unparseable:
  "s \<noteq> [] \<Longrightarrow> e \<noteq> [] \<Longrightarrow> Date s = None \<or> Date e = None \<Longrightarrow>
   formatDuration Date (Some s) (Some e) = J ''(took NaNs)''"
  by (auto simp: formatDuration_def num_sub_def num_lt_def num_gt_def num_floor_div_def
      num_rem_def num_to_string_def trim_def is_space_def reserved_def split: option.splits)

lemma formatDuration_end_before_start:
  "Date s = Some a \<Longrightarrow> Date e = Some b \<Longrightarrow> b < a \<Longrightarrow>
   formatDuration Date (Some s) (Some e) = []"
  by (simp add: formatDuration_def num_sub_def num_lt_def)

text \<open>
  Claim C8 says that the duration helper returns the empty string when a timestamp
  cannot be parsed. With a start that does not parse it returns \<^verbatim>\<open>(took NaNs)\<close>. The
  spans of 3725 and 45 seconds and the end before the start come out as the claim
  says.
\<close>

theorem C8_unparseable_duration:
  "formatDuration (\<lambda>s. if s = J ''1970-01-01T00:00:00Z'' then Some 0 else None)
     (Some (J ''yesterday'')) (Some (J ''1970-01-01T00:00:00Z'')) = J ''(took NaNs)'' \<and>
   formatDuration (\<lambda>s. if s = J ''1970-01-01T00:00:00Z'' then Some 0
                       else if s = J ''1970-01-01T01:02:05Z'' then Some 3725000 else None)
     (Some (J ''1970-01-01T00:00:00Z'')) (Some (J ''1970-01-01T01:02:05Z'')) = J ''(took 1h 2m 5s)'' \<and>
   formatDuration (\<lambda>s. if s = J ''1970-01-01T00:00:00Z'' then Some 0
                       else if s = J ''1970-01-01T00:00:45Z'' then Some 45000 else None)
     (Some (J ''1970-01-01T00:00:00Z'')) (Some (J ''1970-01-01T00:00:45Z'')) = J ''(took 45s)'' \<and>
   formatDuration (\<lambda>s. if s = J ''1970-01-01T00:00:00Z'' then Some 0
                       else if s = J ''1970-01-01T00:00:45Z'' then Some 45000 else None)
     (Some (J ''1970-01-01T00:00:45Z'')) (Some (J ''1970-01-01T00:00:00Z'')) = []"
  by (simp add: formatDuration_def num_sub_def num_lt_def num_gt_def num_floor_div_def
      num_rem_def num_to_string_def show_int_def digit_char_def value_defs)

text \<open>
  Claim C5 says that for an event type outside the recognized set the formatter returns
  the empty string and never throws, whatever the payload object. Both versions build
  the names of the repository and the sender with the escaper before they look at the
  event type, and the escaper throws on a truthy value that is not a string: with
  \<^verbatim>\<open>sender.login\<close> the number 5 both versions throw.
\<close>

theorem C5_unrecognized_event_throws:
  "J ''deployment'' \<notin> set recognized_events \<and> J ''deployment'' \<notin> set recognized_events_v2 \<and>
   escapeMarkdownV2 (Num (J ''5'') False True) = None \<and>
   escapeMarkdownV2_v2 (Num (J ''5'') False True) = None \<and>
   formatMessage (\<lambda>s. False) (J ''deployment'')
     (Obj [(J ''sender'', Obj [(J ''login'', Num (J ''5'') False True)])]) = None \<and>
   formatMessage_v2 (\<lambda>e p. Some []) (J ''deployment'')
     (Obj [(J ''sender'', Obj [(J ''login'', Num (J ''5'') False True)])]) = None \<and>
   formatMessage (\<lambda>s. False) (J ''deployment'')
     (Obj [(J ''sender'', Obj [(J ''login'', Str (J ''u''))])]) = Some [] \<and>
   formatMessage_v2 (\<lambda>e p. Some []) (J ''deployment'')
     (Obj [(J ''sender'', Obj [(J ''login'', Str (J ''u''))])]) = Some []"
  by (simp add: worker_defs v2_defs value_defs recognized_events_def)

text \<open>
  Claim C9 says that whenever no handler appends content after the header the formatter
  returns the empty string. For the event \<^verbatim>\<open>discussion\<close> the handler appends nothing; the
  formatter then logs a line that holds \<^verbatim>\<open>${payload.action || "N/A"}\<close>. With an action
  that cannot be converted to a string, here the object \<^verbatim>\<open>{"toString": 1}\<close>, that throws:
  the header line is built, the message is the header and nothing more, and the
  formatter throws where the claim asks for the empty string. With the action a string
  it returns the empty string.
\<close>

theorem C9_header_only_log_throws:
  "header_line
     (Obj [(J ''action'', Obj [(J ''toString'', Num (J ''1'') False True)]),
           (J ''repository'', Obj [(J ''full_name'', Str (J ''a/b'')), (J ''html_url'', Str (J ''https://r''))]),
           (J ''sender'', Obj [(J ''login'', Str (J ''u_1''))])])
     = Some (J ''*Repo:* [a/b](https://r) '' @ BSL @ J ''| *By:* [u'' @ BSL @ J ''_1](#)'' @ BSL @ J ''n'') \<and>
   dispatch (\<lambda>s. False) (J ''discussion'')
     (J ''*Repo:* [a/b](https://r) '' @ BSL @ J ''| *By:* [u'' @ BSL @ J ''_1](#)'' @ BSL @ J ''n'')
     (Obj [(J ''action'', Obj [(J ''toString'', Num (J ''1'') False True)]),
           (J ''repository'', Obj [(J ''full_name'', Str (J ''a/b'')), (J ''html_url'', Str (J ''https://r''))]),
           (J ''sender'', Obj [(J ''login'', Str (J ''u_1''))])])
     = Some (J ''*Repo:* [a/b](https://r) '' @ BSL @ J ''| *By:* [u'' @ BSL @ J ''_1](#)'' @ BSL @ J ''n'') \<and>
   formatMessage (\<lambda>s. False) (J ''discussion'')
     (Obj [(J ''action'', Obj [(J ''toString'', Num (J ''1'') False True)]),
           (J ''repository'', Obj [(J ''full_name'', Str (J ''a/b'')), (J ''html_url'', Str (J ''https://r''))]),
           (J ''sender'', Obj [(J ''login'', Str (J ''u_1''))])]) = None \<and>
   formatMessage (\<lambda>s. False) (J ''pull_request_review_comment'')
     (Obj [(J ''action'', Obj [(J ''toString'', Num (J ''1'') False True)])]) = None \<and>
   formatMessage (\<lambda>s. False) (J ''discussion'')
     (Obj [(J ''action'', Str (J ''created'')),
           (J ''repository'', Obj [(J ''full_name'', Str (J ''a/b'')), (J ''html_url'', Str (J ''https://r''))]),
           (J ''sender'', Obj [(J ''login'', Str (J ''u_1''))])]) = Some [] \<and>
   formatMessage (\<lambda>s. False) (J ''create'')
     (Obj [(J ''ref_type'', Str (J ''branch'')), (J ''ref'', Str (J ''dev'')),
           (J ''repository'', Obj [(J ''full_name'', Str (J ''a/b'')), (J ''html_url'', Str (J ''https://r''))]),
           (J ''sender'', Obj [(J ''login'', Str (J ''u_1''))])])
     = Some (J ''*Repo:* [a/b](https://r) '' @ BSL @ J ''| *By:* [u'' @ BSL @ J ''_1](#)'' @ BSL
             @ J ''n*Created branch*: `dev`'')"
  by (simp add: worker_defs value_defs)

lemma escape_Str: "escapeMarkdownV2 (Str s) = Some (replace_reserved s)"
  by (cases s) simp_all

lemma get_of_get_opt: "get_opt v k = x \<Longrightarrow> x \<noteq> Undefined \<Longrightarrow> get v k = Some x"
  by (cases "get v k") (simp_all add: get_opt_def)

lemma get_defined_other: "get v k = Some x \<Longrightarrow> get v k' = Some (get_opt v k')"
  by (cases v) (simp_all add: get_opt_def del: J_Cons)

lemma shown_author_escape:
  assumes "shown_author a who"
  shows "escapeMarkdownV2 (or_else (get_opt a (J ''name'')) (get_opt a (J ''username'')))
         = Some (replace_reserved who)"
proof (cases "truthy (get_opt a (J ''name''))")
  case True
  then have "get_opt a (J ''name'') = Str who" using assms by (simp add: shown_author_def)
  then show ?thesis using True by (simp add: or_else_def escape_Str del: escapeMarkdownV2.simps J_Cons)
next
  case False
  note nf = False
  show ?thesis
  proof (cases "truthy (get_opt a (J ''username''))")
    case True
    then have "get_opt a (J ''username'') = Str who"
      using assms nf by (simp add: shown_author_def)
    then show ?thesis using nf by (simp add: or_else_def escape_Str del: escapeMarkdownV2.simps J_Cons)
  next
    case False
    then have "who = []" using assms nf by (simp add: shown_author_def)
    then show ?thesis using nf False by (simp add: or_else_def del: J_Cons)
  qed
qed

lemma commit_line_describes:
  assumes "describes c (sha, msg, url, who)"
  shows "commit_line c = Some (commit_text sha msg url who)"
proof -
  have i: "get c (J ''id'') = Some (Str sha)"
    using assms by (intro get_of_get_opt) (simp_all add: describes_def)
  have m: "get c (J ''message'') = Some (Str msg)"
    using assms by (intro get_of_get_opt) (simp_all add: describes_def)
  have u: "get c (J ''url'') = Some (get_opt c (J ''url''))"
    using i by (rule get_defined_other)
  have us: "to_string (get_opt c (J ''url'')) = Some url"
    using assms by (simp add: describes_def)
  have a: "get c (J ''author'') = Some (get_opt c (J ''author''))"
    using i by (rule get_defined_other)
  have sa: "shown_author (get_opt c (J ''author'')) who"
    using assms by (simp add: describes_def)
  then have an: "get (get_opt c (J ''author'')) (J ''name'')
                 = Some (get_opt (get_opt c (J ''author'')) (J ''name''))"
    and au: "get (get_opt c (J ''author'')) (J ''username'')
                 = Some (get_opt (get_opt c (J ''author'')) (J ''username''))"
    by (simp_all add: shown_author_def get_defined del: J_Cons)
  show ?thesis
    unfolding commit_line_def commit_text_def
    by (simp add: i m u us a an au escape_Str shown_author_escape [OF sa]
        del: J_Cons escapeMarkdownV2.simps replace_reserved.simps)
qed

lemma commit_lines_described:
  "list_all2 describes cs ds \<Longrightarrow>
   commit_lines cs = Some (concat (map (\<lambda>(sha, msg, url, who). commit_text sha msg url who) ds))"
proof (induction rule: list_all2_induct)
  case Nil
  show ?case by simp
next
  case (Cons c cs d ds)
  obtain sha msg url who where d: "d = (sha, msg, url, who)" by (cases d) auto
  show ?case
    using Cons commit_line_describes [of c sha msg url who] by (simp add: d)
qed

lemma trim_id:
  assumes "s \<noteq> []" and "\<not> is_space (hd s)" and "\<not> is_space (last s)"
  shows "trim s = s"
proof -
  have 1: "dropWhile is_space s = s"
    using assms(1,2) by (cases s) simp_all
  have "rev s \<noteq> []" and "\<not> is_space (hd (rev s))"
    using assms(1,3) by (simp_all add: hd_rev)
  then have 2: "dropWhile is_space (rev s) = rev s"
    by (cases "rev s") simp_all
  show ?thesis by (simp add: trim_def 1 2)
qed

lemma replace_first_absent: "\<not> contains pat s \<Longrightarrow> replace_first pat rep s = s"
  by (induction s) auto

lemma replace_first_prefix: "pat \<noteq> [] \<Longrightarrow> replace_first pat rep (pat @ s) = rep @ s"
  by (cases pat) (simp_all add: startsWith_def)

lemma branch_name_heads:
  assumes "\<not> contains (J ''refs/tags/'') b"
  shows "branch_name (J ''refs/heads/'' @ b) = b"
proof -
  have "J ''refs/heads/'' \<noteq> []" by simp
  then have "replace_first (J ''refs/heads/'') [] (J ''refs/heads/'' @ b) = b"
    using replace_first_prefix [of "J ''refs/heads/''" "[]" b] by simp
  then show ?thesis
    using assms by (simp add: branch_name_def replace_first_absent del: replace_first.simps J_Cons)
qed

lemma contains_heads_after_tags:
  "contains (J ''refs/heads/'') (J ''refs/tags/'' @ b) = contains (J ''refs/heads/'') b"
  by (simp add: startsWith_def)

lemma branch_name_tags:
  assumes "\<not> contains (J ''refs/heads/'') b"
  shows "branch_name (J ''refs/tags/'' @ b) = b"
proof -
  have "J ''refs/tags/'' \<noteq> []" by simp
  then have "replace_first (J ''refs/tags/'') [] (J ''refs/tags/'' @ b) = b"
    using replace_first_prefix [of "J ''refs/tags/''" "[]" b] by simp
  moreover have "\<not> contains (J ''refs/heads/'') (J ''refs/tags/'' @ b)"
    using assms by (simp only: contains_heads_after_tags simp_thms)
  ultimately show ?thesis
    by (simp add: branch_name_def replace_first_absent del: replace_first.simps contains.simps J_Cons)
qed

lemma formatMessage_push_appended:
  assumes "header_line payload = Some h"
    and "push_case positive h payload = Some (h @ rest)"
    and "rest \<noteq> []" and "\<not> is_space (last rest)"
  shows "formatMessage positive (J ''push'') payload = Some (h @ rest)"
proof -
  obtain t where t: "h = 0x2A # t" using header_line_starts [OF assms(1)] by blast
  have "trim (h @ rest) = h @ rest"
    using assms(3,4) t by (intro trim_id) (simp_all add: not_space_simps)
  moreover have "length (h @ rest) \<noteq> length h" using assms(3) by simp
  ultimately have "finish h (h @ rest) payload = Some (h @ rest)" by (simp add: finish_def)
  then show ?thesis
    by (simp add: formatMessage_def assms(1,2) dispatch_def del: J_Cons)
qed

lemma formatMessage_push_reset:
  assumes "header_line payload = Some h" and "push_case positive h payload = Some []"
  shows "formatMessage positive (J ''push'') payload = Some []"
proof -
  obtain t where t: "h = 0x2A # t" using header_line_starts [OF assms(1)] by blast
  have "finish h [] payload = Some []" by (simp add: finish_def trim_def startsWith_def t)
  then show ?thesis
    by (simp add: formatMessage_def assms dispatch_def del: J_Cons)
qed

lemma commit_text_end: "\<exists>y. commit_text sha msg url who = y @ [0x6E]"
  by (simp add: commit_text_def)

lemma commit_texts_last:
  assumes "xs \<noteq> []"
  shows "last (pre @ concat (map (\<lambda>(sha, msg, url, who). commit_text sha msg url who) xs)) = 0x6E"
proof -
  from assms obtain ys z where xs: "xs = ys @ [z]" by (metis append_butlast_last_id)
  obtain i m n u where z: "z = (i, m, n, u)" by (cases z) auto
  obtain y where y: "commit_text i m n u = y @ [0x6E]" using commit_text_end by blast
  show ?thesis by (simp add: xs z y)
qed

lemma header_line_get:
  assumes "header_line p = Some h"
  shows "get p k = Some (get_opt p k)"
proof -
  obtain repo where "get p (J ''repository'') = Some repo"
    using assms unfolding header_line_def by (auto elim!: bindE simp del: J_Cons)
  then show ?thesis by (rule get_defined_other)
qed

lemma length_num_simps:
  "is_zero (length_num n) = (n = 0)" "gt_zero positive (length_num n) = Some (0 < n)"
  "to_string (length_num n) = Some (show_nat n)"
  by (simp_all add: length_num_def)

lemma push_case_start:
  assumes "header_line payload = Some h"
    and "get_opt payload (J ''ref'') = Str r"
    and "or_else (get_opt payload (J ''commits'')) (Arr []) = Arr cs"
  shows "push_case positive h payload =
     (if cs = [] \<and> truthy (get_opt payload (J ''forced''))
      then push_forced h (replace_reserved (branch_name r)) (get_opt payload (J ''compare''))
      else if 0 < length cs
        then push_commits h (replace_reserved (branch_name r)) (Arr cs) (length_num (length cs))
               (get_opt payload (J ''compare''))
      else push_other h (replace_reserved r) r payload (get_opt payload (J ''compare'')))"
  unfolding push_case_def Let_def
  by (simp add: header_line_get [OF assms(1)] assms(2,3) escape_Str length_num_simps
      del: J_Cons escapeMarkdownV2.simps)

lemma push_forced_message:
  assumes "header_line payload = Some h"
    and "get_opt payload (J ''ref'') = Str r"
    and "or_else (get_opt payload (J ''commits'')) (Arr []) = Arr []"
    and "truthy (get_opt payload (J ''forced''))"
    and "to_string (get_opt payload (J ''compare'')) = Some cu"
  shows "formatMessage positive (J ''push'') payload =
     Some (h @ J ''*Force Pushed* to branch `'' @ replace_reserved (branch_name r) @ J ''` '' @ BSL
           @ J ''(no new commits'' @ BSL @ J '')'' @ BSL @ J ''. [Compare changes]('' @ cu @ J '')'')"
proof -
  have "push_case positive h payload =
     Some (h @ (J ''*Force Pushed* to branch `'' @ replace_reserved (branch_name r) @ J ''` '' @ BSL
           @ J ''(no new commits'' @ BSL @ J '')'' @ BSL @ J ''. [Compare changes]('' @ cu @ J '')''))"
    unfolding push_case_start [OF assms(1-3)] push_forced_def
    by (simp add: assms(4,5) del: J_Cons)
  then show ?thesis
    using formatMessage_push_appended [OF assms(1)] by (simp add: is_space_def)
qed

lemma push_commits_message:
  assumes "header_line payload = Some h"
    and "get_opt payload (J ''ref'') = Str r"
    and "or_else (get_opt payload (J ''commits'')) (Arr []) = Arr cs"
    and "cs \<noteq> []"
    and "to_string (get_opt payload (J ''compare'')) = Some cu"
    and "list_all2 describes (take 3 cs) ds"
  shows "formatMessage positive (J ''push'') payload =
     Some (h @ J ''*Pushed '' @ show_nat (length cs) @ J '' commit''
           @ (if 1 < length cs then J ''s'' else [])
           @ J ''* to branch `'' @ replace_reserved (branch_name r) @ J ''`'' @ BSL
           @ J ''. [Compare changes]('' @ cu @ J '')'' @ BSL @ J ''n''
           @ concat (map (\<lambda>(sha, msg, url, who). commit_text sha msg url who) ds)
           @ (if 3 < length cs
              then J ''  '' @ ELLIPSIS @ J '' and '' @ show_nat (length cs - 3) @ J '' more''
                   @ BSL @ J ''.'' @ BSL @ J ''n''
              else []))"
proof -
  define pre where "pre = J ''*Pushed '' @ show_nat (length cs) @ J '' commit''
           @ (if 1 < length cs then J ''s'' else [])
           @ J ''* to branch `'' @ replace_reserved (branch_name r) @ J ''`'' @ BSL
           @ J ''. [Compare changes]('' @ cu @ J '')'' @ BSL @ J ''n''"
  define suf where "suf = (if 3 < length cs
              then J ''  '' @ ELLIPSIS @ J '' and '' @ show_nat (length cs - 3) @ J '' more''
                   @ BSL @ J ''.'' @ BSL @ J ''n''
              else [])"
  define lines where "lines = concat (map (\<lambda>(sha, msg, url, who). commit_text sha msg url who) ds)"
  have len: "0 < length cs" using assms(4) by simp
  have cl: "commit_lines (take 3 cs) = Some lines"
    unfolding lines_def using assms(6) by (rule commit_lines_described)
  have "push_case positive h payload = Some (h @ (pre @ lines @ suf))"
    unfolding push_case_start [OF assms(1-3)] push_commits_def pre_def suf_def
    using len assms(4)
    by (simp add: assms(5) cl length_num_simps del: J_Cons commit_lines.simps)
  moreover have "pre @ lines @ suf \<noteq> []" by (simp add: pre_def)
  moreover have "last (pre @ lines @ suf) = 0x6E"
  proof (cases "3 < length cs")
    case True
    then show ?thesis by (simp add: suf_def BSL_def)
  next
    case False
    have "ds \<noteq> []" using assms(4,6) by (cases cs) auto
    then show ?thesis
      using False commit_texts_last [of ds pre] by (simp add: suf_def lines_def)
  qed
  ultimately have "formatMessage positive (J ''push'') payload = Some (h @ (pre @ lines @ suf))"
    using formatMessage_push_appended [OF assms(1), of positive "pre @ lines @ suf"]
    by (simp add: is_space_def)
  then show ?thesis by (simp add: pre_def lines_def suf_def del: J_Cons)
qed

lemma push_deleted_tag:
  assumes "header_line payload = Some h"
    and "get_opt payload (J ''ref'') = Str r"
    and "or_else (get_opt payload (J ''commits'')) (Arr []) = Arr []"
    and "\<not> truthy (get_opt payload (J ''forced''))"
    and "truthy (get_opt payload (J ''deleted''))"
    and "startsWith r (J ''refs/tags/'')"
  shows "formatMessage positive (J ''push'') payload = Some []"
proof -
  have "push_case positive h payload = Some []"
    unfolding push_case_start [OF assms(1-3)] push_other_def
    by (simp add: assms(4-6) header_line_get [OF assms(1)] del: J_Cons)
  then show ?thesis by (rule formatMessage_push_reset [OF assms(1)])
qed

lemma push_not_a_case_v2: "J ''push'' \<notin> set recognized_events_v2"
  by (simp add: recognized_events_v2_def other_events_v2_def)

text \<open>
  Claim C6 speaks of \<^verbatim>\<open>formatMessage\<close> of both versions and of every push payload; it
  says that the branch name is the ref with its prefix stripped, and that a push with
  \<^verbatim>\<open>deleted\<close> set and a ref under \<^verbatim>\<open>refs/tags/\<close> produces no message. The second version has
  no case \<^verbatim>\<open>push\<close> and returns the empty string for the force push of the
  specification's example. In \<^verbatim>\<open>worker.js\<close> the branch that suppresses a deleted tag comes
  third: a deleted tag whose payload has no commits and \<^verbatim>\<open>forced\<close> set is reported as a
  force push. The branch name of the ref \<^verbatim>\<open>refs/heads/a/refs/tags/b\<close> is \<^verbatim>\<open>a/b\<close>, not the
  ref without its prefix, \<^verbatim>\<open>a/refs/tags/b\<close>. And \<^verbatim>\<open>worker.js\<close> throws on a push without a
  \<^verbatim>\<open>ref\<close>, on one whose header cannot be built, on a compare link that does not convert
  to text, on commits that are a string, and on a commit without an author.
\<close>

theorem C6_push_counterexample:
  "J ''push'' \<notin> set recognized_events_v2 \<and>
   formatMessage_v2 (\<lambda>e p. None) (J ''push'')
     (Obj [(J ''ref'', Str (J ''refs/heads/main'')), (J ''commits'', Arr []), (J ''forced'', Bool True),
           (J ''compare'', Str (J ''https://x'')),
           (J ''repository'', Obj [(J ''full_name'', Str (J ''a/b''))])]) = Some [] \<and>
   truthy (Bool True) \<and> startsWith (J ''refs/tags/v1'') (J ''refs/tags/'') \<and>
   formatMessage (\<lambda>s. False) (J ''push'')
     (Obj [(J ''ref'', Str (J ''refs/tags/v1'')), (J ''deleted'', Bool True), (J ''forced'', Bool True),
           (J ''commits'', Arr []), (J ''compare'', Str (J ''https://x''))])
     = Some (J ''*Repo:* [Unknown Repo](#) '' @ BSL @ J ''| *By:* [Unknown User](#)'' @ BSL
             @ J ''n*Force Pushed* to branch `v1` '' @ BSL @ J ''(no new commits'' @ BSL @ J '')'' @ BSL
             @ J ''. [Compare changes](https://x)'') \<and>
   startsWith (J ''refs/heads/a/refs/tags/b'') (J ''refs/heads/'') \<and>
   drop (length (J ''refs/heads/'')) (J ''refs/heads/a/refs/tags/b'') = J ''a/refs/tags/b'' \<and>
   branch_name (J ''refs/heads/a/refs/tags/b'') = J ''a/b'' \<and>
   formatMessage (\<lambda>s. False) (J ''push'')
     (Obj [(J ''commits'', Arr []), (J ''forced'', Bool True), (J ''compare'', Str (J ''https://x''))])
     = None \<and>
   formatMessage (\<lambda>s. False) (J ''push'')
     (Obj [(J ''ref'', Str (J ''refs/heads/main'')), (J ''commits'', Arr []), (J ''forced'', Bool True),
           (J ''compare'', Str (J ''https://x'')),
           (J ''sender'', Obj [(J ''login'', Num (J ''5'') False True)])]) = None \<and>
   formatMessage (\<lambda>s. False) (J ''push'')
     (Obj [(J ''ref'', Str (J ''refs/heads/main'')), (J ''commits'', Arr []), (J ''forced'', Bool True),
           (J ''compare'', Obj [(J ''toString'', Num (J ''1'') False True)])]) = None \<and>
   formatMessage (\<lambda>s. False) (J ''push'')
     (Obj [(J ''ref'', Str (J ''refs/heads/main'')), (J ''commits'', Str (J ''abc'')),
           (J ''compare'', Str (J ''https://x''))]) = None \<and>
   formatMessage (\<lambda>s. False) (J ''push'')
     (Obj [(J ''ref'', Str (J ''refs/heads/main'')),
           (J ''commits'',
            Arr [Obj [(J ''id'', Str (J ''abcdef0123456789'')), (J ''message'', Str (J ''fix bug'')),
                      (J ''url'', Str (J ''https://x''))]]),
           (J ''compare'', Str (J ''https://x''))]) = None"
  by (simp add: worker_defs v2_defs value_defs)

text \<open>
  Claim C6, amended. In \<^verbatim>\<open>worker.js\<close>, for a push payload whose header line \<open>h\<close> can be
  built, whose \<^verbatim>\<open>ref\<close> is a string \<open>r\<close> and whose \<^verbatim>\<open>commits\<close> are falsy (then there are none)
  or an array \<open>cs\<close>: with no commits and \<^verbatim>\<open>forced\<close> truthy the message is the header
  followed by the report of a force push with no new commits and the compare link, the
  text \<open>cu\<close> that \<^verbatim>\<open>compare\<close> converts to; with commits and such a compare link it reports
  their number, lists the first three at most, each with the first seven characters of
  its identifier, the first line of its message and the name of its author (the
  \<^verbatim>\<open>name\<close>, or the \<^verbatim>\<open>username\<close> when the name is falsy), and ends with the number of the
  remaining commits when there are more than three, provided each listed commit has a
  string \<^verbatim>\<open>id\<close>, a string \<^verbatim>\<open>message\<close>, a \<^verbatim>\<open>url\<close> that converts to text and an author object
  whose name to show is a string or missing; the branch name is the ref with its prefix
  stripped, for a ref \<^verbatim>\<open>refs/heads/\<close> and then \<open>b\<close> where \<open>b\<close> holds no \<^verbatim>\<open>refs/tags/\<close>, and for a
  ref \<^verbatim>\<open>refs/tags/\<close> and then \<open>b\<close> where \<open>b\<close> holds no \<^verbatim>\<open>refs/heads/\<close>; and a deleted tag with no
  commits that is not forced produces no message. The second version has no case for a
  push: whenever it returns, it returns the empty string.
\<close>

theorem C6_push_messages:
  assumes "header_line payload = Some h"
    and "get_opt payload (J ''ref'') = Str r"
    and "or_else (get_opt payload (J ''commits'')) (Arr []) = Arr cs"
  shows
    "(cs = [] \<and> truthy (get_opt payload (J ''forced'')) \<and>
      to_string (get_opt payload (J ''compare'')) = Some cu \<longrightarrow>
        formatMessage positive (J ''push'') payload =
          Some (h @ J ''*Force Pushed* to branch `'' @ replace_reserved (branch_name r) @ J ''` '' @ BSL
                @ J ''(no new commits'' @ BSL @ J '')'' @ BSL @ J ''. [Compare changes]('' @ cu
                @ J '')'')) \<and>
     (cs \<noteq> [] \<and> to_string (get_opt payload (J ''compare'')) = Some cu \<and>
      list_all2 describes (take 3 cs) ds \<longrightarrow>
        formatMessage positive (J ''push'') payload =
          Some (h @ J ''*Pushed '' @ show_nat (length cs) @ J '' commit''
                @ (if 1 < length cs then J ''s'' else [])
                @ J ''* to branch `'' @ replace_reserved (branch_name r) @ J ''`'' @ BSL
                @ J ''. [Compare changes]('' @ cu @ J '')'' @ BSL @ J ''n''
                @ concat (map (\<lambda>(sha, msg, url, who). commit_text sha msg url who) ds)
                @ (if 3 < length cs
                   then J ''  '' @ ELLIPSIS @ J '' and '' @ show_nat (length cs - 3) @ J '' more''
                        @ BSL @ J ''.'' @ BSL @ J ''n''
                   else []))) \<and>
     (\<not> contains (J ''refs/tags/'') b \<longrightarrow> branch_name (J ''refs/heads/'' @ b) = b) \<and>
     (\<not> contains (J ''refs/heads/'') b \<longrightarrow> branch_name (J ''refs/tags/'' @ b) = b) \<and>
     (cs = [] \<and> \<not> truthy (get_opt payload (J ''forced'')) \<and>
      truthy (get_opt payload (J ''deleted'')) \<and> startsWith r (J ''refs/tags/'') \<longrightarrow>
        formatMessage positive (J ''push'') payload = Some []) \<and>
     (formatMessage_v2 others (J ''push'') payload = Some m \<longrightarrow> m = [])"
proof (intro conjI impI)
  assume a: "cs = [] \<and> truthy (get_opt payload (J ''forced'')) \<and>
      to_string (get_opt payload (J ''compare'')) = Some cu"
  then have c: "or_else (get_opt payload (J ''commits'')) (Arr []) = Arr []"
    using assms(3) by simp
  show "formatMessage positive (J ''push'') payload =
          Some (h @ J ''*Force Pushed* to branch `'' @ replace_reserved (branch_name r) @ J ''` '' @ BSL
                @ J ''(no new commits'' @ BSL @ J '')'' @ BSL @ J ''. [Compare changes]('' @ cu
                @ J '')'')"
    using a by (intro push_forced_message [OF assms(1,2) c]) blast+
next
  assume a: "cs \<noteq> [] \<and> to_string (get_opt payload (J ''compare'')) = Some cu \<and>
      list_all2 describes (take 3 cs) ds"
  show "formatMessage positive (J ''push'') payload =
          Some (h @ J ''*Pushed '' @ show_nat (length cs) @ J '' commit''
                @ (if 1 < length cs then J ''s'' else [])
                @ J ''* to branch `'' @ replace_reserved (branch_name r) @ J ''`'' @ BSL
                @ J ''. [Compare changes]('' @ cu @ J '')'' @ BSL @ J ''n''
                @ concat (map (\<lambda>(sha, msg, url, who). commit_text sha msg url who) ds)
                @ (if 3 < length cs
                   then J ''  '' @ ELLIPSIS @ J '' and '' @ show_nat (length cs - 3) @ J '' more''
                        @ BSL @ J ''.'' @ BSL @ J ''n''
                   else []))"
    using a by (intro push_commits_message [OF assms(1-3)]) blast+
next
  assume "\<not> contains (J ''refs/tags/'') b"
  then show "branch_name (J ''refs/heads/'' @ b) = b" by (rule branch_name_heads)
next
  assume "\<not> contains (J ''refs/heads/'') b"
  then show "branch_name (J ''refs/tags/'' @ b) = b" by (rule branch_name_tags)
next
  assume a: "cs = [] \<and> \<not> truthy (get_opt payload (J ''forced'')) \<and>
      truthy (get_opt payload (J ''deleted'')) \<and> startsWith r (J ''refs/tags/'')"
  then have c: "or_else (get_opt payload (J ''commits'')) (Arr []) = Arr []"
    using assms(3) by simp
  show "formatMessage positive (J ''push'') payload = Some []"
    using a by (intro push_deleted_tag [OF assms(1,2) c]) blast+
next
  assume "formatMessage_v2 others (J ''push'') payload = Some m"
  then show "m = []"
    by (rule formatMessage_v2_unrecognized [OF push_not_a_case_v2])
qed

theorem C6_push_messages_witness:
  "header_line
     (Obj [(J ''ref'', Str (J ''refs/heads/main'')), (J ''commits'', Arr []), (J ''forced'', Bool True),
           (J ''compare'', Str (J ''https://x'')),
           (J ''repository'', Obj [(J ''full_name'', Str (J ''a/b''))])])
     = Some (J ''*Repo:* [a/b](#) '' @ BSL @ J ''| *By:* [Unknown User](#)'' @ BSL @ J ''n'') \<and>
   formatMessage (\<lambda>s. False) (J ''push'')
     (Obj [(J ''ref'', Str (J ''refs/heads/main'')), (J ''commits'', Arr []), (J ''forced'', Bool True),
           (J ''compare'', Str (J ''https://x'')),
           (J ''repository'', Obj [(J ''full_name'', Str (J ''a/b''))])])
     = Some (J ''*Repo:* [a/b](#) '' @ BSL @ J ''| *By:* [Unknown User](#)'' @ BSL
             @ J ''n*Force Pushed* to branch `main` '' @ BSL @ J ''(no new commits'' @ BSL @ J '')''
             @ BSL @ J ''. [Compare changes](https://x)'') \<and>
   formatMessage (\<lambda>s. False) (J ''push'')
     (Obj [(J ''ref'', Str (J ''refs/heads/main'')),
           (J ''commits'',
            Arr [Obj [(J ''id'', Str (J ''abcdef0123456789'')),
                      (J ''message'', Str (J ''fix bug'' @ [0x0A] @ J ''more'')),
                      (J ''author'', Obj [(J ''name'', Str (J ''a''))]),
                      (J ''url'', Str (J ''https://x'')), (J ''distinct'', Bool True)]]),
           (J ''compare'', Str (J ''https://x''))])
     = Some (J ''*Repo:* [Unknown Repo](#) '' @ BSL @ J ''| *By:* [Unknown User](#)'' @ BSL
             @ J ''n*Pushed 1 commit* to branch `main`'' @ BSL @ J ''. [Compare changes](https://x)''
             @ BSL @ J ''n  '' @ BSL @ J ''- [abcdef0](https://x) fix bug '' @ BSL @ J ''- _a_'' @ BSL
             @ J ''n'') \<and>
   formatMessage (\<lambda>s. False) (J ''push'')
     (Obj [(J ''ref'', Str (J ''refs/heads/main'')),
           (J ''commits'',
            Arr [Obj [(J ''id'', Str (J ''abcdef0123456789'')),
                      (J ''message'', Str (J ''fix bug'' @ [0x0A] @ J ''more'')),
                      (J ''author'', Obj [(J ''name'', Str (J ''a''))]),
                      (J ''url'', Str (J ''https://x'')), (J ''distinct'', Bool True)],
                 Obj [(J ''id'', Str (J ''1234567890'')), (J ''message'', Str (J ''add x.y'')),
                      (J ''author'', Obj [(J ''name'', Str []), (J ''username'', Str (J ''bob_2''))]),
                      (J ''url'', Str (J ''https://y''))],
                 Obj [(J ''id'', Str (J ''fedcba9'')), (J ''message'', Str (J ''third'')),
                      (J ''author'', Obj []), (J ''url'', Str (J ''https://z''))],
                 Null]),
           (J ''compare'', Str (J ''https://x''))])
     = Some (J ''*Repo:* [Unknown Repo](#) '' @ BSL @ J ''| *By:* [Unknown User](#)'' @ BSL
             @ J ''n*Pushed 4 commits* to branch `main`'' @ BSL @ J ''. [Compare changes](https://x)''
             @ BSL @ J ''n  '' @ BSL @ J ''- [abcdef0](https://x) fix bug '' @ BSL @ J ''- _a_'' @ BSL
             @ J ''n  '' @ BSL @ J ''- [1234567](https://y) add x'' @ BSL @ J ''.y '' @ BSL
             @ J ''- _bob'' @ BSL @ J ''_2_'' @ BSL
             @ J ''n  '' @ BSL @ J ''- [fedcba9](https://z) third '' @ BSL @ J ''- __'' @ BSL
             @ J ''n  '' @ BSL @ J ''.'' @ BSL @ J ''.'' @ BSL @ J ''. and 1 more'' @ BSL @ J ''.''
             @ BSL @ J ''n'') \<and>
   branch_name (J ''refs/heads/main'') = J ''main'' \<and>
   branch_name (J ''refs/tags/v1'') = J ''v1'' \<and>
   formatMessage (\<lambda>s. False) (J ''push'')
     (Obj [(J ''ref'', Str (J ''refs/tags/v1'')), (J ''deleted'', Bool True), (J ''commits'', Arr []),
           (J ''compare'', Str (J ''https://x''))]) = Some [] \<and>
   formatMessage_v2 (\<lambda>e p. None) (J ''push'')
     (Obj [(J ''ref'', Str (J ''refs/heads/main'')), (J ''commits'', Arr []), (J ''forced'', Bool True),
           (J ''compare'', Str (J ''https://x'')),
           (J ''repository'', Obj [(J ''full_name'', Str (J ''a/b''))])]) = Some []"
proof -
  let ?H0 = "J ''*Repo:* [Unknown Repo](#) '' @ BSL @ J ''| *By:* [Unknown User](#)'' @ BSL @ J ''n''"
  let ?HA = "J ''*Repo:* [a/b](#) '' @ BSL @ J ''| *By:* [Unknown User](#)'' @ BSL @ J ''n''"
  let ?c1 = "Obj [(J ''id'', Str (J ''abcdef0123456789'')),
                  (J ''message'', Str (J ''fix bug'' @ [0x0A] @ J ''more'')),
                  (J ''author'', Obj [(J ''name'', Str (J ''a''))]),
                  (J ''url'', Str (J ''https://x'')), (J ''distinct'', Bool True)]"
  let ?c2 = "Obj [(J ''id'', Str (J ''1234567890'')), (J ''message'', Str (J ''add x.y'')),
                  (J ''author'', Obj [(J ''name'', Str []), (J ''username'', Str (J ''bob_2''))]),
                  (J ''url'', Str (J ''https://y''))]"
  let ?c3 = "Obj [(J ''id'', Str (J ''fedcba9'')), (J ''message'', Str (J ''third'')),
                  (J ''author'', Obj []), (J ''url'', Str (J ''https://z''))]"
  let ?d1 = "(J ''abcdef0123456789'', J ''fix bug'' @ [0x0A] @ J ''more'', J ''https://x'', J ''a'')"
  let ?d2 = "(J ''1234567890'', J ''add x.y'', J ''https://y'', J ''bob_2'')"
  let ?d3 = "(J ''fedcba9'', J ''third'', J ''https://z'', [] :: jstring)"
  let ?PA = "Obj [(J ''ref'', Str (J ''refs/heads/main'')), (J ''commits'', Arr []), (J ''forced'', Bool True),
           (J ''compare'', Str (J ''https://x'')),
           (J ''repository'', Obj [(J ''full_name'', Str (J ''a/b''))])]"
  let ?PB = "Obj [(J ''ref'', Str (J ''refs/heads/main'')), (J ''commits'', Arr [?c1]),
           (J ''compare'', Str (J ''https://x''))]"
  let ?PC = "Obj [(J ''ref'', Str (J ''refs/heads/main'')), (J ''commits'', Arr [?c1, ?c2, ?c3, Null]),
           (J ''compare'', Str (J ''https://x''))]"
  let ?PD = "Obj [(J ''ref'', Str (J ''refs/tags/v1'')), (J ''deleted'', Bool True), (J ''commits'', Arr []),
           (J ''compare'', Str (J ''https://x''))]"
  have ha: "header_line ?PA = Some ?HA" by (simp add: header_line_def value_defs)
  have hb: "header_line ?PB = Some ?H0" by (simp add: header_line_def value_defs)
  have hc: "header_line ?PC = Some ?H0" by (simp add: header_line_def value_defs)
  have hd: "header_line ?PD = Some ?H0" by (simp add: header_line_def value_defs)
  have ra: "get_opt ?PA (J ''ref'') = Str (J ''refs/heads/main'')" by (simp add: get_opt_def)
  have rb: "get_opt ?PB (J ''ref'') = Str (J ''refs/heads/main'')" by (simp add: get_opt_def)
  have rc: "get_opt ?PC (J ''ref'') = Str (J ''refs/heads/main'')" by (simp add: get_opt_def)
  have rd: "get_opt ?PD (J ''ref'') = Str (J ''refs/tags/v1'')" by (simp add: get_opt_def)
  have ca: "or_else (get_opt ?PA (J ''commits'')) (Arr []) = Arr []" by (simp add: value_defs)
  have cb: "or_else (get_opt ?PB (J ''commits'')) (Arr []) = Arr [?c1]" by (simp add: value_defs)
  have cc: "or_else (get_opt ?PC (J ''commits'')) (Arr []) = Arr [?c1, ?c2, ?c3, Null]"
    by (simp add: value_defs)
  have cd: "or_else (get_opt ?PD (J ''commits'')) (Arr []) = Arr []" by (simp add: value_defs)
  note A = C6_push_messages [OF ha ra ca, where positive = "\<lambda>s. False" and cu = "J ''https://x''"
      and b = "J ''main''" and others = "\<lambda>e p. None" and m = "[]"]
  note B = C6_push_messages [OF hb rb cb, where positive = "\<lambda>s. False" and cu = "J ''https://x''"
      and ds = "[?d1]"]
  note C = C6_push_messages [OF hc rc cc, where positive = "\<lambda>s. False" and cu = "J ''https://x''"
      and ds = "[?d1, ?d2, ?d3]"]
  note D = C6_push_messages [OF hd rd cd, where positive = "\<lambda>s. False" and b = "J ''v1''"]
  have fa: "truthy (get_opt ?PA (J ''forced''))" by (simp add: get_opt_def)
  have ua: "to_string (get_opt ?PA (J ''compare'')) = Some (J ''https://x'')" by (simp add: get_opt_def)
  have ub: "to_string (get_opt ?PB (J ''compare'')) = Some (J ''https://x'')" by (simp add: get_opt_def)
  have uc: "to_string (get_opt ?PC (J ''compare'')) = Some (J ''https://x'')" by (simp add: get_opt_def)
  have db: "list_all2 describes (take 3 [?c1]) [?d1]"
    by (simp add: describes_def shown_author_def get_opt_def)
  have dc: "list_all2 describes (take 3 [?c1, ?c2, ?c3, Null]) [?d1, ?d2, ?d3]"
    by (simp add: describes_def shown_author_def get_opt_def)
  have "formatMessage (\<lambda>s. False) (J ''push'') ?PA =
          Some (?HA @ J ''*Force Pushed* to branch `'' @ replace_reserved (branch_name (J ''refs/heads/main''))
                @ J ''` '' @ BSL @ J ''(no new commits'' @ BSL @ J '')'' @ BSL
                @ J ''. [Compare changes]('' @ J ''https://x'' @ J '')'')"
    using A fa ua by blast
  moreover have "?HA @ J ''*Force Pushed* to branch `'' @ replace_reserved (branch_name (J ''refs/heads/main''))
                @ J ''` '' @ BSL @ J ''(no new commits'' @ BSL @ J '')'' @ BSL
                @ J ''. [Compare changes]('' @ J ''https://x'' @ J '')''
        = J ''*Repo:* [a/b](#) '' @ BSL @ J ''| *By:* [Unknown User](#)'' @ BSL
             @ J ''n*Force Pushed* to branch `main` '' @ BSL @ J ''(no new commits'' @ BSL @ J '')''
             @ BSL @ J ''. [Compare changes](https://x)''"
    by (simp add: branch_name_def value_defs)
  ultimately have ma: "formatMessage (\<lambda>s. False) (J ''push'') ?PA
     = Some (J ''*Repo:* [a/b](#) '' @ BSL @ J ''| *By:* [Unknown User](#)'' @ BSL
             @ J ''n*Force Pushed* to branch `main` '' @ BSL @ J ''(no new commits'' @ BSL @ J '')''
             @ BSL @ J ''. [Compare changes](https://x)'')"
    by (simp only:)
  have nb: "[?c1] \<noteq> []" by simp
  have "formatMessage (\<lambda>s. False) (J ''push'') ?PB =
          Some (?H0 @ J ''*Pushed '' @ show_nat (length [?c1]) @ J '' commit''
                @ (if 1 < length [?c1] then J ''s'' else [])
                @ J ''* to branch `'' @ replace_reserved (branch_name (J ''refs/heads/main'')) @ J ''`'' @ BSL
                @ J ''. [Compare changes]('' @ J ''https://x'' @ J '')'' @ BSL @ J ''n''
                @ concat (map (\<lambda>(sha, msg, url, who). commit_text sha msg url who) [?d1])
                @ (if 3 < length [?c1]
                   then J ''  '' @ ELLIPSIS @ J '' and '' @ show_nat (length [?c1] - 3) @ J '' more''
                        @ BSL @ J ''.'' @ BSL @ J ''n''
                   else []))"
    using B nb ub db by blast
  moreover have "?H0 @ J ''*Pushed '' @ show_nat (length [?c1]) @ J '' commit''
                @ (if 1 < length [?c1] then J ''s'' else [])
                @ J ''* to branch `'' @ replace_reserved (branch_name (J ''refs/heads/main'')) @ J ''`'' @ BSL
                @ J ''. [Compare changes]('' @ J ''https://x'' @ J '')'' @ BSL @ J ''n''
                @ concat (map (\<lambda>(sha, msg, url, who). commit_text sha msg url who) [?d1])
                @ (if 3 < length [?c1]
                   then J ''  '' @ ELLIPSIS @ J '' and '' @ show_nat (length [?c1] - 3) @ J '' more''
                        @ BSL @ J ''.'' @ BSL @ J ''n''
                   else [])
        = J ''*Repo:* [Unknown Repo](#) '' @ BSL @ J ''| *By:* [Unknown User](#)'' @ BSL
             @ J ''n*Pushed 1 commit* to branch `main`'' @ BSL @ J ''. [Compare changes](https://x)''
             @ BSL @ J ''n  '' @ BSL @ J ''- [abcdef0](https://x) fix bug '' @ BSL @ J ''- _a_'' @ BSL
             @ J ''n''"
    by (simp add: branch_name_def value_defs commit_text_def first_line_def digit_char_def)
  ultimately have mb: "formatMessage (\<lambda>s. False) (J ''push'') ?PB
     = Some (J ''*Repo:* [Unknown Repo](#) '' @ BSL @ J ''| *By:* [Unknown User](#)'' @ BSL
             @ J ''n*Pushed 1 commit* to branch `main`'' @ BSL @ J ''. [Compare changes](https://x)''
             @ BSL @ J ''n  '' @ BSL @ J ''- [abcdef0](https://x) fix bug '' @ BSL @ J ''- _a_'' @ BSL
             @ J ''n'')"
    by (simp only:)
  have nc: "[?c1, ?c2, ?c3, Null] \<noteq> []" by simp
  have "formatMessage (\<lambda>s. False) (J ''push'') ?PC =
          Some (?H0 @ J ''*Pushed '' @ show_nat (length [?c1, ?c2, ?c3, Null]) @ J '' commit''
                @ (if 1 < length [?c1, ?c2, ?c3, Null] then J ''s'' else [])
                @ J ''* to branch `'' @ replace_reserved (branch_name (J ''refs/heads/main'')) @ J ''`'' @ BSL
                @ J ''. [Compare changes]('' @ J ''https://x'' @ J '')'' @ BSL @ J ''n''
                @ concat (map (\<lambda>(sha, msg, url, who). commit_text sha msg url who) [?d1, ?d2, ?d3])
                @ (if 3 < length [?c1, ?c2, ?c3, Null]
                   then J ''  '' @ ELLIPSIS @ J '' and '' @ show_nat (length [?c1, ?c2, ?c3, Null] - 3)
                        @ J '' more'' @ BSL @ J ''.'' @ BSL @ J ''n''
                   else []))"
    using C nc uc dc by blast
  moreover have "?H0 @ J ''*Pushed '' @ show_nat (length [?c1, ?c2, ?c3, Null]) @ J '' commit''
                @ (if 1 < length [?c1, ?c2, ?c3, Null] then J ''s'' else [])
                @ J ''* to branch `'' @ replace_reserved (branch_name (J ''refs/heads/main'')) @ J ''`'' @ BSL
                @ J ''. [Compare changes]('' @ J ''https://x'' @ J '')'' @ BSL @ J ''n''
                @ concat (map (\<lambda>(sha, msg, url, who). commit_text sha msg url who) [?d1, ?d2, ?d3])
                @ (if 3 < length [?c1, ?c2, ?c3, Null]
                   then J ''  '' @ ELLIPSIS @ J '' and '' @ show_nat (length [?c1, ?c2, ?c3, Null] - 3)
                        @ J '' more'' @ BSL @ J ''.'' @ BSL @ J ''n''
                   else [])
        = J ''*Repo:* [Unknown Repo](#) '' @ BSL @ J ''| *By:* [Unknown User](#)'' @ BSL
             @ J ''n*Pushed 4 commits* to branch `main`'' @ BSL @ J ''. [Compare changes](https://x)''
             @ BSL @ J ''n  '' @ BSL @ J ''- [abcdef0](https://x) fix bug '' @ BSL @ J ''- _a_'' @ BSL
             @ J ''n  '' @ BSL @ J ''- [1234567](https://y) add x'' @ BSL @ J ''.y '' @ BSL
             @ J ''- _bob'' @ BSL @ J ''_2_'' @ BSL
             @ J ''n  '' @ BSL @ J ''- [fedcba9](https://z) third '' @ BSL @ J ''- __'' @ BSL
             @ J ''n  '' @ BSL @ J ''.'' @ BSL @ J ''.'' @ BSL @ J ''. and 1 more'' @ BSL @ J ''.''
             @ BSL @ J ''n''"
    by (simp add: branch_name_def value_defs commit_text_def first_line_def digit_char_def ELLIPSIS_def)
  ultimately have mc: "formatMessage (\<lambda>s. False) (J ''push'') ?PC
     = Some (J ''*Repo:* [Unknown Repo](#) '' @ BSL @ J ''| *By:* [Unknown User](#)'' @ BSL
             @ J ''n*Pushed 4 commits* to branch `main`'' @ BSL @ J ''. [Compare changes](https://x)''
             @ BSL @ J ''n  '' @ BSL @ J ''- [abcdef0](https://x) fix bug '' @ BSL @ J ''- _a_'' @ BSL
             @ J ''n  '' @ BSL @ J ''- [1234567](https://y) add x'' @ BSL @ J ''.y '' @ BSL
             @ J ''- _bob'' @ BSL @ J ''_2_'' @ BSL
             @ J ''n  '' @ BSL @ J ''- [fedcba9](https://z) third '' @ BSL @ J ''- __'' @ BSL
             @ J ''n  '' @ BSL @ J ''.'' @ BSL @ J ''.'' @ BSL @ J ''. and 1 more'' @ BSL @ J ''.''
             @ BSL @ J ''n'')"
    by (simp only:)
  have n1: "\<not> contains (J ''refs/tags/'') (J ''main'')" by (simp add: startsWith_def)
  have n2: "\<not> contains (J ''refs/heads/'') (J ''v1'')" by (simp add: startsWith_def)
  have "branch_name (J ''refs/heads/'' @ J ''main'') = J ''main''" using A n1 by blast
  then have b1: "branch_name (J ''refs/heads/main'') = J ''main''" by simp
  have "branch_name (J ''refs/tags/'' @ J ''v1'') = J ''v1''" using D n2 by blast
  then have b2: "branch_name (J ''refs/tags/v1'') = J ''v1''" by simp
  have t: "\<not> truthy (get_opt ?PD (J ''forced''))" "truthy (get_opt ?PD (J ''deleted''))"
    "startsWith (J ''refs/tags/v1'') (J ''refs/tags/'')"
    by (simp_all add: get_opt_def startsWith_def)
  have md: "formatMessage (\<lambda>s. False) (J ''push'') ?PD = Some []"
    using D t by blast
  have v: "formatMessage_v2 (\<lambda>e p. None) (J ''push'') ?PA = Some []"
    by (simp add: v2_defs value_defs)
  have "formatMessage_v2 (\<lambda>e p. None) (J ''push'') ?PA = Some [] \<longrightarrow> ([] :: jstring) = []"
    using A by blast
  show ?thesis using ha ma mb mc b1 b2 md v by (intro conjI)
qed

end
